theory Spec2Isabelle
  imports Main "HOL-Library.Word" "HOL-Library.Sublist" "HOL-Library.List_Lexorder"
    "HOL-Library.Char_ord"
begin

section \<open>The campaign delivery worker (internal/worker/worker.go)\<close>

text \<open>
  The worker drains campaign jobs and, for each, sends one templated message per pending
  recipient while keeping campaign, recipient, contact and message rows up to date.
  The database, the gateway client and the publisher are collaborators of the worker: the
  store is a record of tables (lists of rows), a write of the worker is applied to the rows
  its \<open>WHERE\<close> clause selects, and everything the worker cannot decide itself (a failing
  query, the gateway's answer, a status written by the management API while the run is in
  flight, the clock, a cancelled context) is read from an environment given to the run.
\<close>

subsection \<open>Strings: \<open>fmt.Sprintf\<close> and \<open>strings.ReplaceAll\<close>\<close>

text \<open>Go strings are byte sequences, as \<^typ>\<open>string\<close> is.\<close>

definition digit_char :: "nat \<Rightarrow> char" where
  "digit_char d = ''0123456789'' ! d"

text \<open>\<open>fmt.Sprintf("%d", i)\<close> for a non-negative \<open>i\<close>.\<close>

function sprint_d :: "nat \<Rightarrow> string" where
  "sprint_d n = (if n < 10 then [digit_char n] else sprint_d (n div 10) @ [digit_char (n mod 10)])"
  by pat_completeness auto
termination
  by (relation "measure id") auto

declare sprint_d.simps [simp del]

text \<open>
  \<open>strings.ReplaceAll(s, old, new)\<close>: the non-overlapping occurrences of \<open>old\<close> are
  replaced from left to right. With an empty \<open>old\<close> Go inserts \<open>new\<close> before every UTF-8
  sequence and at the end; the equation for that case is the one for single-byte
  characters (the worker never passes an empty \<open>old\<close>).
\<close>

function replace_all :: "string \<Rightarrow> string \<Rightarrow> string \<Rightarrow> string" where
  "replace_all [] old new = (if old = [] then new else [])"
| "replace_all (c # cs) old new =
     (if old = [] then new @ c # replace_all cs old new
      else if prefix old (c # cs) then new @ replace_all (drop (length old) (c # cs)) old new
      else c # replace_all cs old new)"
  by pat_completeness auto
termination
  by (relation "measure (\<lambda>(s, old, new). length s)") auto

declare replace_all.simps [simp del]

subsection \<open>The data model (package models, the fields the worker uses)\<close>

text \<open>
  A \<open>uuid.UUID\<close> is represented by its canonical text, so \<open>String()\<close> is the identity and
  the order of the text is the order of the sixteen bytes. \<open>models.JSONB\<close> is a
  \<open>map[string]interface{}\<close>: an association list read with \<^const>\<open>map_of\<close>, \<open>None\<close> for
  the nil map. The values of the template parameters are strings, for which \<open>%v\<close> prints
  the string itself. A counter is a Go \<open>int\<close>, a 64-bit word: \<open>+\<close> wraps around as
  \<open>sentCount++\<close> does, and \<^const>\<open>sint\<close> reads the signed number. Timestamps are numbers.
  The field \<open>c_Template\<close> of a campaign row is the association as \<open>Preload("Template")\<close>
  resolves it: \<open>None\<close> is the nil pointer of a campaign whose template row is not there.
\<close>

type_synonym uuid = string
type_synonym jsonb = "(string \<times> string) list"
type_synonym timestamp = nat
type_synonym go_int = "64 word"

record template =
  t_Name :: string
  t_Language :: string
  t_BodyContent :: string

record campaign =
  c_ID :: uuid
  c_OrganizationID :: uuid
  c_WhatsAppAccount :: string
  c_Template :: "template option"
  c_Status :: string
  c_SentCount :: go_int
  c_FailedCount :: go_int
  c_CompletedAt :: "timestamp option"

record account =
  a_ID :: uuid
  a_Name :: string
  a_OrganizationID :: uuid
  a_PhoneID :: string
  a_BusinessID :: string
  a_APIVersion :: string
  a_AccessToken :: string

record recipient =
  r_ID :: uuid
  r_CampaignID :: uuid
  r_PhoneNumber :: string
  r_RecipientName :: string
  r_TemplateParams :: "jsonb option"
  r_Status :: string
  r_ErrorMessage :: string
  r_WhatsAppMessageID :: string
  r_SentAt :: "timestamp option"

record contact =
  ct_ID :: uuid
  ct_OrganizationID :: uuid
  ct_PhoneNumber :: string
  ct_ProfileName :: string

record message =
  m_ID :: uuid
  m_OrganizationID :: uuid
  m_WhatsAppAccount :: string
  m_ContactID :: uuid
  m_WhatsAppMessageID :: string
  m_Direction :: string
  m_MessageType :: string
  m_TemplateParams :: "jsonb option"
  m_Metadata :: jsonb
  m_TemplateName :: string
  m_Content :: string
  m_Status :: string
  m_ErrorMessage :: string

text \<open>\<open>queue.CampaignStatsUpdate\<close>, as handed to the publisher.\<close>

record stats_update =
  s_CampaignID :: string
  s_OrganizationID :: uuid
  s_Status :: string
  s_SentCount :: go_int
  s_DeliveredCount :: go_int
  s_ReadCount :: go_int
  s_FailedCount :: go_int

text \<open>
  One call of \<open>SendTemplateMessageWithComponents\<close>: the \<open>whatsapp.Account\<close>, the phone
  number, the template's name and language, and the components. The only component the
  worker builds is a body component, represented by the list of its text parameters.
\<close>

record gateway_call =
  g_PhoneID :: string
  g_BusinessID :: string
  g_APIVersion :: string
  g_AccessToken :: string
  g_To :: string
  g_TemplateName :: string
  g_Language :: string
  g_Components :: "string list list"

record store =
  campaigns :: "campaign list"
  accounts :: "account list"
  recipients :: "recipient list"
  contacts :: "contact list"
  messages :: "message list"
  published :: "stats_update list"
  gateway :: "gateway_call list"

subsection \<open>The environment of a run\<close>

text \<open>
  What the worker cannot decide. Per run: whether a query of the setup fails with a
  database error (a query that finds no row fails by itself), and the clock at completion.
  Per recipient iteration: whether the context is cancelled, the status the management API
  has written to the campaign since the previous iteration (if any), whether the poll of the
  status and the queries and inserts of the iteration fail, the keys the store gives to new
  rows, what the gateway returns (\<open>(string, error)\<close>, the error by its text), and the clock.
\<close>

record run_env =
  campaign_load_error :: bool
  account_load_error :: bool
  recipients_load_error :: bool
  completion_time :: timestamp

record iter_env =
  ctx_done :: bool
  external_status :: "string option"
  status_read_error :: bool
  contact_lookup_error :: bool
  contact_plus_lookup_error :: bool
  contact_create_error :: bool
  new_contact_id :: uuid
  send_message_id :: string
  send_error :: "string option"
  message_create_error :: bool
  new_message_id :: uuid
  sent_time :: timestamp

subsection \<open>Store operations (gorm)\<close>

text \<open>
  \<open>First\<close> orders by primary key and takes one row: of the rows that satisfy the
  condition, the one with the least key (the earliest of them in the table, should a key
  repeat). \<open>Find\<close> is \<^const>\<open>filter\<close>. \<open>Model(&row).Update(s)\<close> writes the rows whose primary key
  is that of \<open>row\<close>.
\<close>

definition db_first :: "('a \<Rightarrow> uuid) \<Rightarrow> ('a \<Rightarrow> bool) \<Rightarrow> 'a list \<Rightarrow> 'a option" where
  "db_first key cond rows =
     (case filter cond rows of
        [] \<Rightarrow> None
      | x # xs \<Rightarrow> Some (fold (\<lambda>y m. if key y < key m then y else m) xs x))"

definition update_campaign :: "uuid \<Rightarrow> (campaign \<Rightarrow> campaign) \<Rightarrow> store \<Rightarrow> store" where
  "update_campaign cid f w =
     w\<lparr>campaigns := map (\<lambda>c. if c_ID c = cid then f c else c) (campaigns w)\<rparr>"

definition update_recipient :: "uuid \<Rightarrow> (recipient \<Rightarrow> recipient) \<Rightarrow> store \<Rightarrow> store" where
  "update_recipient rid f w =
     w\<lparr>recipients := map (\<lambda>r. if r_ID r = rid then f r else r) (recipients w)\<rparr>"

subsection \<open>\<open>getOrCreateContact\<close>\<close>

definition normalize_phone :: "string \<Rightarrow> string" where
  "normalize_phone phoneNumber =
     (if length phoneNumber > 0 \<and> hd phoneNumber = CHR ''+'' then tl phoneNumber else phoneNumber)"

definition find_contact :: "bool \<Rightarrow> store \<Rightarrow> uuid \<Rightarrow> string \<Rightarrow> contact option" where
  "find_contact query_error w orgID phone =
     (if query_error then None
      else db_first ct_ID (\<lambda>c. ct_OrganizationID c = orgID \<and> ct_PhoneNumber c = phone) (contacts w))"

text \<open>The result is the contact, or \<open>None\<close> for \<open>(nil, err)\<close>.\<close>

definition getOrCreateContact ::
  "iter_env \<Rightarrow> store \<Rightarrow> uuid \<Rightarrow> string \<Rightarrow> string \<Rightarrow> contact option \<times> store" where
  "getOrCreateContact e w orgID phoneNumber name =
     (let normalizedPhone = normalize_phone phoneNumber in
      case find_contact (contact_lookup_error e) w orgID normalizedPhone of
        Some c \<Rightarrow> (Some c, w)
      | None \<Rightarrow>
          (case find_contact (contact_plus_lookup_error e) w orgID (''+'' @ normalizedPhone) of
             Some c \<Rightarrow> (Some c, w)
           | None \<Rightarrow>
               if contact_create_error e then (None, w)
               else
                 (let c = \<lparr>ct_ID = new_contact_id e, ct_OrganizationID = orgID,
                           ct_PhoneNumber = normalizedPhone, ct_ProfileName = name\<rparr>
                  in (Some c, w\<lparr>contacts := contacts w @ [c]\<rparr>))))"

subsection \<open>\<open>sendTemplateMessage\<close>\<close>

function body_params_from :: "nat \<Rightarrow> jsonb \<Rightarrow> string list \<Rightarrow> string list" where
  "body_params_from i params bodyParams =
     (if i \<le> 10 then
        (case map_of params (sprint_d i) of
           Some val \<Rightarrow> body_params_from (i + 1) params (bodyParams @ [val])
         | None \<Rightarrow> body_params_from (i + 1) params bodyParams)
      else bodyParams)"
  by pat_completeness auto
termination
  by (relation "measure (\<lambda>(i, params, bodyParams). 11 - i)") auto

declare body_params_from.simps [simp del]

definition build_components :: "jsonb option \<Rightarrow> string list list" where
  "build_components templateParams =
     (case templateParams of
        None \<Rightarrow> []
      | Some params \<Rightarrow>
          if length params > 0 then
            (let bodyParams = body_params_from 1 params [] in
             if length bodyParams > 0 then [bodyParams] else [])
          else [])"


text \<open>
  The template is a pointer, dereferenced for the arguments of the gateway call: with a nil
  template the call panics (\<open>None\<close>) before anything is sent. Otherwise the result is what
  the gateway returns.
\<close>

definition sendTemplateMessage ::
  "iter_env \<Rightarrow> store \<Rightarrow> account \<Rightarrow> template option \<Rightarrow> recipient
     \<Rightarrow> ((string \<times> string option) \<times> store) option" where
  "sendTemplateMessage e w acct tmpl recipient =
     (let components = build_components (r_TemplateParams recipient) in
      case tmpl of
        None \<Rightarrow> None
      | Some t \<Rightarrow>
          Some ((send_message_id e, send_error e),
                w\<lparr>gateway := gateway w @
                    [\<lparr>g_PhoneID = a_PhoneID acct, g_BusinessID = a_BusinessID acct,
                      g_APIVersion = a_APIVersion acct, g_AccessToken = a_AccessToken acct,
                      g_To = r_PhoneNumber recipient, g_TemplateName = t_Name t,
                      g_Language = t_Language t, g_Components = components\<rparr>]\<rparr>))"

subsection \<open>The content of the message record\<close>

text \<open>The loop \<open>for i := 1; i <= 10; i++\<close> over the placeholders.\<close>

function substitute_from :: "nat \<Rightarrow> jsonb \<Rightarrow> string \<Rightarrow> string" where
  "substitute_from i params content =
     (if i \<le> 10 then
        (case map_of params (sprint_d i) of
           Some val \<Rightarrow>
             substitute_from (i + 1) params
               (replace_all content (''{{'' @ sprint_d i @ ''}}'') val)
         | None \<Rightarrow> substitute_from (i + 1) params content)
      else content)"
  by pat_completeness auto
termination
  by (relation "measure (\<lambda>(i, params, content). 11 - i)") auto

declare substitute_from.simps [simp del]

definition render_content :: "string \<Rightarrow> jsonb option \<Rightarrow> string" where
  "render_content bodyContent templateParams =
     (case templateParams of
        None \<Rightarrow> bodyContent
      | Some params \<Rightarrow> substitute_from 1 params bodyContent)"

subsection \<open>One recipient\<close>

definition management_write :: "iter_env \<Rightarrow> uuid \<Rightarrow> store \<Rightarrow> store" where
  "management_write e campaignID w =
     (case external_status e of
        None \<Rightarrow> w
      | Some s \<Rightarrow> update_campaign campaignID (\<lambda>c. c\<lparr>c_Status := s\<rparr>) w)"

text \<open>
  The poll \<open>First(&currentCampaign)\<close>, whose error is not looked at: when the read fails
  the struct keeps its zero value and the status is the empty string.
\<close>

definition current_status :: "iter_env \<Rightarrow> uuid \<Rightarrow> store \<Rightarrow> string" where
  "current_status e campaignID w =
     (if status_read_error e then []
      else case db_first c_ID (\<lambda>c. c_ID c = campaignID) (campaigns w) of
             None \<Rightarrow> []
           | Some c \<Rightarrow> c_Status c)"

definition publish :: "stats_update \<Rightarrow> store \<Rightarrow> store" where
  "publish u w = w\<lparr>published := published w @ [u]\<rparr>"

definition build_message :: "uuid \<Rightarrow> campaign \<Rightarrow> recipient \<Rightarrow> contact \<Rightarrow> string \<Rightarrow> message" where
  "build_message campaignID campaign recipient contact waMessageID =
     (let message =
            \<lparr>m_ID = [], m_OrganizationID = c_OrganizationID campaign,
             m_WhatsAppAccount = c_WhatsAppAccount campaign, m_ContactID = ct_ID contact,
             m_WhatsAppMessageID = waMessageID, m_Direction = ''outgoing'',
             m_MessageType = ''template'', m_TemplateParams = r_TemplateParams recipient,
             m_Metadata = [(''campaign_id'', campaignID),
                           (''recipient_name'', r_RecipientName recipient)],
             m_TemplateName = [], m_Content = [], m_Status = [], m_ErrorMessage = []\<rparr>
      in case c_Template campaign of
           None \<Rightarrow> message
         | Some t \<Rightarrow>
             message\<lparr>m_TemplateName := t_Name t,
                     m_Content := render_content (t_BodyContent t) (r_TemplateParams recipient)\<rparr>)"

text \<open>
  The body of the loop after the two checks. The result is the pair of counters carried
  to the next iteration, or \<open>None\<close> when the iteration panics.
\<close>

definition process_recipient ::
  "iter_env \<Rightarrow> uuid \<Rightarrow> campaign \<Rightarrow> account \<Rightarrow> recipient \<Rightarrow> go_int \<Rightarrow> go_int \<Rightarrow> store
     \<Rightarrow> (go_int \<times> go_int) option \<times> store" where
  "process_recipient e campaignID campaign acct recipient sentCount failedCount w =
     (case getOrCreateContact e w (c_OrganizationID campaign) (r_PhoneNumber recipient)
             (r_RecipientName recipient) of
        (None, w1) \<Rightarrow>
          (Some (sentCount, failedCount + 1),
           update_recipient (r_ID recipient)
             (\<lambda>r. r\<lparr>r_Status := ''failed'', r_ErrorMessage := ''Failed to create contact''\<rparr>) w1)
      | (Some contact, w1) \<Rightarrow>
          (case sendTemplateMessage e w1 acct (c_Template campaign) recipient of
             None \<Rightarrow> (None, w1)
           | Some ((waMessageID, err), w2) \<Rightarrow>
               (let message0 = build_message campaignID campaign recipient contact waMessageID;
                    message =
                      (case err of
                         Some txt \<Rightarrow> message0\<lparr>m_Status := ''failed'', m_ErrorMessage := txt\<rparr>
                       | None \<Rightarrow> message0\<lparr>m_Status := ''sent''\<rparr>);
                    sentCount' = (case err of Some txt \<Rightarrow> sentCount | None \<Rightarrow> sentCount + 1);
                    failedCount' = (case err of Some txt \<Rightarrow> failedCount + 1 | None \<Rightarrow> failedCount);
                    w3 = (if message_create_error e then w2
                          else w2\<lparr>messages := messages w2 @ [message\<lparr>m_ID := new_message_id e\<rparr>]\<rparr>);
                    w4 = update_recipient (r_ID recipient)
                           (\<lambda>r. if m_Status message = ''failed''
                                then r\<lparr>r_Status := m_Status message,
                                       r_WhatsAppMessageID := waMessageID,
                                       r_ErrorMessage := m_ErrorMessage message\<rparr>
                                else r\<lparr>r_Status := m_Status message,
                                       r_WhatsAppMessageID := waMessageID,
                                       r_SentAt := Some (sent_time e)\<rparr>) w3;
                    w5 = update_campaign (c_ID campaign)
                           (\<lambda>c. c\<lparr>c_SentCount := sentCount', c_FailedCount := failedCount'\<rparr>) w4;
                    w6 = publish
                           \<lparr>s_CampaignID = campaignID, s_OrganizationID = c_OrganizationID campaign,
                            s_Status = ''processing'', s_SentCount = sentCount',
                            s_DeliveredCount = 0, s_ReadCount = 0,
                            s_FailedCount = failedCount'\<rparr> w5
                in (Some (sentCount', failedCount'), w6))))"

subsection \<open>The loop over the pending recipients\<close>

datatype loop_end = Exhausted go_int go_int | StoppedByStatus | ContextDone | NilTemplatePanic

text \<open>
  Iteration \<open>k\<close> reads \<open>ienv k\<close>. What the management API wrote since the previous
  iteration is in the store when the iteration starts.
\<close>

fun recipient_loop ::
  "(nat \<Rightarrow> iter_env) \<Rightarrow> nat \<Rightarrow> uuid \<Rightarrow> campaign \<Rightarrow> account \<Rightarrow> recipient list
     \<Rightarrow> go_int \<Rightarrow> go_int \<Rightarrow> store \<Rightarrow> loop_end \<times> store" where
  "recipient_loop ienv k campaignID campaign acct [] sentCount failedCount w =
     (Exhausted sentCount failedCount, w)"
| "recipient_loop ienv k campaignID campaign acct (recipient # rest) sentCount failedCount w =
     (let e = ienv k; w0 = management_write e campaignID w in
      if ctx_done e then (ContextDone, w0)
      else if current_status e campaignID w0 = ''paused''
              \<or> current_status e campaignID w0 = ''cancelled'' then (StoppedByStatus, w0)
      else
        (case process_recipient e campaignID campaign acct recipient sentCount failedCount w0 of
           (None, w1) \<Rightarrow> (NilTemplatePanic, w1)
         | (Some (sentCount', failedCount'), w1) \<Rightarrow>
             recipient_loop ienv (k + 1) campaignID campaign acct rest sentCount' failedCount' w1))"

subsection \<open>\<open>processCampaign\<close> and \<open>handleCampaignJob\<close>\<close>

datatype run_error = LoadCampaignError | LoadAccountError | LoadRecipientsError | ContextError

text \<open>
  How a run ends. \<open>Completed\<close>, \<open>Stopped\<close> (paused or cancelled campaign) and \<open>Skipped\<close>
  (campaign not startable) return nil, \<open>Failed\<close> returns the error, \<open>Panicked\<close> is the
  nil dereference, which returns nothing.
\<close>

datatype outcome = Completed | Stopped | Skipped | Failed run_error | Panicked

datatype go_return = Nil | Error run_error | Panic

fun returned :: "outcome \<Rightarrow> go_return" where
  "returned Completed = Nil"
| "returned Stopped = Nil"
| "returned Skipped = Nil"
| "returned (Failed err) = Error err"
| "returned Panicked = Panic"

definition load_campaign :: "run_env \<Rightarrow> store \<Rightarrow> uuid \<Rightarrow> campaign option" where
  "load_campaign env w campaignID =
     (if campaign_load_error env then None
      else db_first c_ID (\<lambda>c. c_ID c = campaignID) (campaigns w))"

definition load_account :: "run_env \<Rightarrow> store \<Rightarrow> campaign \<Rightarrow> account option" where
  "load_account env w campaign =
     (if account_load_error env then None
      else db_first a_ID (\<lambda>a. a_Name a = c_WhatsAppAccount campaign
                              \<and> a_OrganizationID a = c_OrganizationID campaign) (accounts w))"

definition pending_recipients :: "store \<Rightarrow> uuid \<Rightarrow> recipient list" where
  "pending_recipients w campaignID =
     filter (\<lambda>r. r_CampaignID r = campaignID \<and> r_Status r = ''pending'') (recipients w)"

definition processCampaign ::
  "run_env \<Rightarrow> (nat \<Rightarrow> iter_env) \<Rightarrow> store \<Rightarrow> uuid \<Rightarrow> outcome \<times> store" where
  "processCampaign env ienv w campaignID =
     (case load_campaign env w campaignID of
        None \<Rightarrow> (Failed LoadCampaignError, w)
      | Some campaign \<Rightarrow>
          if c_Status campaign \<noteq> ''queued'' \<and> c_Status campaign \<noteq> ''processing''
          then (Skipped, w)
          else
            (case load_account env w campaign of
               None \<Rightarrow>
                 (Failed LoadAccountError,
                  update_campaign (c_ID campaign) (\<lambda>c. c\<lparr>c_Status := ''failed''\<rparr>) w)
             | Some acct \<Rightarrow>
                 (let w1 = update_campaign (c_ID campaign) (\<lambda>c. c\<lparr>c_Status := ''processing''\<rparr>) w
                  in if recipients_load_error env
                     then (Failed LoadRecipientsError,
                           update_campaign (c_ID campaign) (\<lambda>c. c\<lparr>c_Status := ''failed''\<rparr>) w1)
                     else
                       (case recipient_loop ienv 0 campaignID campaign acct
                               (pending_recipients w1 campaignID)
                               (c_SentCount campaign) (c_FailedCount campaign) w1 of
                          (ContextDone, w2) \<Rightarrow> (Failed ContextError, w2)
                        | (StoppedByStatus, w2) \<Rightarrow> (Stopped, w2)
                        | (NilTemplatePanic, w2) \<Rightarrow> (Panicked, w2)
                        | (Exhausted sentCount failedCount, w2) \<Rightarrow>
                            (Completed,
                             publish
                               \<lparr>s_CampaignID = campaignID,
                                s_OrganizationID = c_OrganizationID campaign,
                                s_Status = ''completed'', s_SentCount = sentCount,
                                s_DeliveredCount = 0, s_ReadCount = 0,
                                s_FailedCount = failedCount\<rparr>
                               (update_campaign (c_ID campaign)
                                  (\<lambda>c. c\<lparr>c_Status := ''completed'',
                                         c_CompletedAt := Some (completion_time env),
                                         c_SentCount := sentCount,
                                         c_FailedCount := failedCount\<rparr>) w2))))))"

text \<open>\<open>handleCampaignJob\<close> logs and hands the error of \<open>processCampaign\<close> to the consumer.\<close>

definition handleCampaignJob ::
  "run_env \<Rightarrow> (nat \<Rightarrow> iter_env) \<Rightarrow> store \<Rightarrow> uuid \<Rightarrow> go_return \<times> store" where
  "handleCampaignJob env ienv w campaignID =
     (case processCampaign env ienv w campaignID of (out, w') \<Rightarrow> (returned out, w'))"

subsection \<open>The content the specification describes\<close>

text \<open>
  These definitions follow the words of the specification, not the code. A template body
  is read as a list of tokens: a placeholder \<open>{{k}}\<close> with its key \<open>k\<close>, or a literal
  character. The content the specification describes puts the parameter's value in the
  place of each placeholder whose key is one of \<open>"1"\<close> to \<open>"10"\<close> and is present in the
  parameters, and leaves every other token as it is written.
\<close>

datatype token = Lit char | Placeholder string

fun token_text :: "token \<Rightarrow> string" where
  "token_text (Lit c) = [c]"
| "token_text (Placeholder k) = ''{{'' @ k @ ''}}''"

definition body_text :: "token list \<Rightarrow> string" where
  "body_text ts = concat (map token_text ts)"

definition supported_keys :: "string list" where
  "supported_keys = map sprint_d [1..<11]"

fun expected_token :: "jsonb \<Rightarrow> token \<Rightarrow> string" where
  "expected_token params (Lit c) = [c]"
| "expected_token params (Placeholder k) =
     (if k \<in> set supported_keys
      then (case map_of params k of Some val \<Rightarrow> val | None \<Rightarrow> ''{{'' @ k @ ''}}'')
      else ''{{'' @ k @ ''}}'')"

definition expected_content :: "jsonb option \<Rightarrow> token list \<Rightarrow> string" where
  "expected_content templateParams ts =
     concat (map (expected_token (case templateParams of None \<Rightarrow> [] | Some params \<Rightarrow> params)) ts)"

text \<open>
  The bodies in which a brace occurs only as part of the delimiters of a placeholder, and
  the parameters whose values for the ten supported keys contain no brace.
\<close>

definition brace_free :: "string \<Rightarrow> bool" where
  "brace_free s = list_all (\<lambda>c. c \<noteq> CHR ''{'' \<and> c \<noteq> CHR ''}'') s"

fun plain_token :: "token \<Rightarrow> bool" where
  "plain_token (Lit c) = brace_free [c]"
| "plain_token (Placeholder k) = brace_free k"

definition braces_only_in_placeholders :: "token list \<Rightarrow> bool" where
  "braces_only_in_placeholders ts = list_all plain_token ts"

definition brace_free_values :: "jsonb option \<Rightarrow> bool" where
  "brace_free_values templateParams =
     (case templateParams of
        None \<Rightarrow> True
      | Some params \<Rightarrow>
          list_all (\<lambda>k. case map_of params k of None \<Rightarrow> True | Some val \<Rightarrow> brace_free val)
            supported_keys)"

text \<open>
  One round of the loop as a function of the content so far, and, on tokens, the effect of
  one round and the content expected from round \<open>i\<close> on.
\<close>

definition substitute_one :: "jsonb \<Rightarrow> string \<Rightarrow> nat \<Rightarrow> string" where
  "substitute_one params content i =
     (case map_of params (sprint_d i) of
        Some val \<Rightarrow> replace_all content (''{{'' @ sprint_d i @ ''}}'') val
      | None \<Rightarrow> content)"

definition substituted_text :: "string \<Rightarrow> string \<Rightarrow> token \<Rightarrow> string" where
  "substituted_text k v t = (if t = Placeholder k then v else token_text t)"

definition substitute_tokens :: "string \<Rightarrow> string \<Rightarrow> token list \<Rightarrow> token list" where
  "substitute_tokens k v ts = concat (map (\<lambda>t. if t = Placeholder k then map Lit v else [t]) ts)"

fun expected_from :: "nat \<Rightarrow> jsonb \<Rightarrow> token \<Rightarrow> string" where
  "expected_from i params (Lit c) = [c]"
| "expected_from i params (Placeholder k) =
     (if k \<in> set (map sprint_d [i..<11])
      then (case map_of params k of Some val \<Rightarrow> val | None \<Rightarrow> ''{{'' @ k @ ''}}'')
      else ''{{'' @ k @ ''}}'')"

subsection \<open>Reading the store after a run\<close>

text \<open>The status of the campaign as a later \<open>First\<close> by id reads it.\<close>

definition campaign_status :: "store \<Rightarrow> uuid \<Rightarrow> string option" where
  "campaign_status w campaignID =
     map_option c_Status (db_first c_ID (\<lambda>c. c_ID c = campaignID) (campaigns w))"

subsection \<open>A sample store and environment\<close>

text \<open>
  One queued campaign with three pending recipients, its account and its template; an
  environment in which nothing fails and iteration \<open>k\<close> gets keys and a provider id
  numbered \<open>k\<close>. The instances below are variations of it.
\<close>

definition demo_template :: template where
  "demo_template = \<lparr>t_Name = ''order_update'', t_Language = ''en'',
                     t_BodyContent = ''Hi {{1}}, your order {{2}} shipped''\<rparr>"

definition demo_campaign :: campaign where
  "demo_campaign = \<lparr>c_ID = ''c1'', c_OrganizationID = ''org1'', c_WhatsAppAccount = ''main'',
                     c_Template = Some demo_template, c_Status = ''queued'', c_SentCount = 0,
                     c_FailedCount = 0, c_CompletedAt = None\<rparr>"

definition demo_account :: account where
  "demo_account = \<lparr>a_ID = ''a1'', a_Name = ''main'', a_OrganizationID = ''org1'',
                    a_PhoneID = ''p'', a_BusinessID = ''b'', a_APIVersion = ''v21.0'',
                    a_AccessToken = ''tok''\<rparr>"

definition demo_recipient :: "string \<Rightarrow> string \<Rightarrow> recipient" where
  "demo_recipient rid phone =
     \<lparr>r_ID = rid, r_CampaignID = ''c1'', r_PhoneNumber = phone, r_RecipientName = ''Ana'',
      r_TemplateParams = Some [(''1'', ''Ana''), (''2'', ''#42'')], r_Status = ''pending'',
      r_ErrorMessage = [], r_WhatsAppMessageID = [], r_SentAt = None\<rparr>"

definition demo_store :: store where
  "demo_store = \<lparr>campaigns = [demo_campaign], accounts = [demo_account],
                  recipients = [demo_recipient ''r1'' ''+15550001'', demo_recipient ''r2'' ''15550002'',
                                demo_recipient ''r3'' ''15550003''],
                  contacts = [], messages = [], published = [], gateway = []\<rparr>"

definition demo_env :: run_env where
  "demo_env = \<lparr>campaign_load_error = False, account_load_error = False,
                recipients_load_error = False, completion_time = 100\<rparr>"

definition demo_iter :: "nat \<Rightarrow> iter_env" where
  "demo_iter k = \<lparr>ctx_done = False, external_status = None, status_read_error = False,
                   contact_lookup_error = False, contact_plus_lookup_error = False,
                   contact_create_error = False, new_contact_id = ''ct'' @ sprint_d k,
                   send_message_id = ''wamid'' @ sprint_d k, send_error = None,
                   message_create_error = False, new_message_id = ''m'' @ sprint_d k,
                   sent_time = k\<rparr>"

definition finished_store :: store where
  "finished_store = demo_store\<lparr>campaigns := [demo_campaign\<lparr>c_Status := ''completed''\<rparr>]\<rparr>"

definition no_account_store :: store where
  "no_account_store = demo_store\<lparr>accounts := []\<rparr>"

definition resumed_store :: store where
  "resumed_store =
     demo_store\<lparr>campaigns := [demo_campaign\<lparr>c_Status := ''processing'', c_SentCount := 1\<rparr>],
                recipients := [(demo_recipient ''r1'' ''+15550001'')\<lparr>r_Status := ''sent''\<rparr>,
                               demo_recipient ''r2'' ''15550002'']\<rparr>"

definition nil_template_store :: store where
  "nil_template_store = demo_store\<lparr>campaigns := [demo_campaign\<lparr>c_Template := None\<rparr>]\<rparr>"

definition contact_down_iter :: "nat \<Rightarrow> iter_env" where
  "contact_down_iter k = (demo_iter k)\<lparr>contact_create_error := True\<rparr>"

definition gateway_down_iter :: "nat \<Rightarrow> iter_env" where
  "gateway_down_iter k = (demo_iter k)\<lparr>send_message_id := [], send_error := Some ''rate limited''\<rparr>"


definition cancel_after_first :: "nat \<Rightarrow> iter_env" where
  "cancel_after_first k =
     (demo_iter k)\<lparr>external_status := (if k = 1 then Some ''cancelled'' else None)\<rparr>"


definition insert_down_iter :: "nat \<Rightarrow> iter_env" where
  "insert_down_iter k = (demo_iter k)\<lparr>message_create_error := True\<rparr>"

definition saturated_store :: store where
  "saturated_store =
     demo_store\<lparr>campaigns := [demo_campaign\<lparr>c_Status := ''processing'',
                                               c_SentCount := 9223372036854775807\<rparr>],
                recipients := [demo_recipient ''r1'' ''+15550001'']\<rparr>"

definition order_body :: "token list" where
  "order_body = map Lit ''Hi '' @ [Placeholder ''1''] @ map Lit '', your order ''
                  @ [Placeholder ''2''] @ map Lit '' shipped''"

definition mixed_body :: "token list" where
  "mixed_body = [Placeholder ''1'', Lit (CHR '' ''), Placeholder ''3'', Lit (CHR '' ''),
                 Placeholder ''11'']"

definition nested_body :: "token list" where
  "nested_body = [Lit (CHR ''{''), Lit (CHR ''{''), Placeholder ''1'', Lit (CHR ''}''),
                  Lit (CHR ''}'')]"

definition contact_ana :: contact where
  "contact_ana = \<lparr>ct_ID = ''ct0'', ct_OrganizationID = ''org1'', ct_PhoneNumber = ''15550001'',
                   ct_ProfileName = ''Ana''\<rparr>"

section \<open>Properties\<close>

subsection \<open>\<open>First\<close>\<close>

lemma fold_least_mem: "fold (\<lambda>y m. if key y < key m then y else m) xs x \<in> set (x # xs)"
  by (induction xs arbitrary: x) auto

lemma db_first_None_filter: "db_first key cond rows = None \<longleftrightarrow> filter cond rows = []"
  by (simp add: db_first_def split: list.splits)

lemma db_first_None_iff: "db_first key cond rows = None \<longleftrightarrow> (\<forall>x \<in> set rows. \<not> cond x)"
  by (simp add: db_first_None_filter filter_empty_conv)

lemma db_first_SomeD:
  assumes "db_first key cond rows = Some x"
  shows "x \<in> set rows \<and> cond x"
proof -
  obtain y ys where f: "filter cond rows = y # ys" and x: "x = fold (\<lambda>y m. if key y < key m then y else m) ys y"
    using assms by (simp add: db_first_def split: list.splits)
  have "x \<in> set (y # ys)" unfolding x by (rule fold_least_mem)
  then have "x \<in> set (filter cond rows)" by (simp only: f)
  then show ?thesis by simp
qed

lemma db_first_Some_ex:
  assumes "x \<in> set rows" "cond x"
  shows "\<exists>y. db_first key cond rows = Some y"
proof (cases "db_first key cond rows")
  case None
  then show ?thesis using assms by (simp add: db_first_None_iff)
next
  case (Some y)
  then show ?thesis by simp
qed

lemma fold_least_map:
  assumes "\<And>x. key (g x) = key x"
  shows "fold (\<lambda>y m. if key y < key m then y else m) (map g xs) (g x) =
         g (fold (\<lambda>y m. if key y < key m then y else m) xs x)"
  by (induction xs arbitrary: x) (simp_all add: assms)

lemma db_first_map:
  assumes "\<And>x. key (g x) = key x" and "\<And>x. cond (g x) = cond x"
  shows "db_first key cond (map g rows) = map_option g (db_first key cond rows)"
proof -
  have f: "filter cond (map g rows) = map g (filter cond rows)"
    by (simp add: filter_map comp_def assms(2))
  show ?thesis
    unfolding db_first_def f
    by (cases "filter cond rows") (simp_all add: fold_least_map [of key g] assms(1))
qed

lemma campaign_status_update:
  "campaign_status (update_campaign cid (\<lambda>c. c\<lparr>c_Status := s\<rparr>) w) cid =
     (if campaign_status w cid = None then None else Some s)"
proof -
  let ?g = "\<lambda>c. if c_ID c = cid then c\<lparr>c_Status := s\<rparr> else c"
  have "db_first c_ID (\<lambda>c. c_ID c = cid) (map ?g (campaigns w)) =
        map_option ?g (db_first c_ID (\<lambda>c. c_ID c = cid) (campaigns w))"
    by (rule db_first_map) simp_all
  then show ?thesis
    by (cases "db_first c_ID (\<lambda>c. c_ID c = cid) (campaigns w)")
       (auto simp: campaign_status_def update_campaign_def dest: db_first_SomeD)
qed

subsection \<open>What the store operations leave alone\<close>

lemma update_campaign_fields [simp]:
  "campaigns (update_campaign cid f w) = map (\<lambda>c. if c_ID c = cid then f c else c) (campaigns w)"
  "accounts (update_campaign cid f w) = accounts w"
  "recipients (update_campaign cid f w) = recipients w"
  "contacts (update_campaign cid f w) = contacts w"
  "messages (update_campaign cid f w) = messages w"
  "published (update_campaign cid f w) = published w"
  "gateway (update_campaign cid f w) = gateway w"
  by (simp_all add: update_campaign_def)

lemma update_recipient_fields [simp]:
  "campaigns (update_recipient rid f w) = campaigns w"
  "accounts (update_recipient rid f w) = accounts w"
  "recipients (update_recipient rid f w) = map (\<lambda>r. if r_ID r = rid then f r else r) (recipients w)"
  "contacts (update_recipient rid f w) = contacts w"
  "messages (update_recipient rid f w) = messages w"
  "published (update_recipient rid f w) = published w"
  "gateway (update_recipient rid f w) = gateway w"
  by (simp_all add: update_recipient_def)

lemma publish_fields [simp]:
  "campaigns (publish u w) = campaigns w"
  "accounts (publish u w) = accounts w"
  "recipients (publish u w) = recipients w"
  "contacts (publish u w) = contacts w"
  "messages (publish u w) = messages w"
  "published (publish u w) = published w @ [u]"
  "gateway (publish u w) = gateway w"
  by (simp_all add: publish_def)

lemma management_write_fields [simp]:
  "accounts (management_write e cid w) = accounts w"
  "recipients (management_write e cid w) = recipients w"
  "contacts (management_write e cid w) = contacts w"
  "messages (management_write e cid w) = messages w"
  "published (management_write e cid w) = published w"
  "gateway (management_write e cid w) = gateway w"
  by (simp_all add: management_write_def split: option.splits)

lemma management_write_campaign_ids [simp]:
  "map c_ID (campaigns (management_write e cid w)) = map c_ID (campaigns w)"
  by (simp add: management_write_def comp_def split: option.splits)

lemma getOrCreateContact_frame:
  assumes "getOrCreateContact e w org phone name = (res, w')"
  shows "campaigns w' = campaigns w" "accounts w' = accounts w" "recipients w' = recipients w"
    "messages w' = messages w" "published w' = published w" "gateway w' = gateway w"
  using assms
  by (auto simp: getOrCreateContact_def Let_def split: option.splits if_splits)

lemma getOrCreateContact_None:
  assumes "getOrCreateContact e w org phone name = (None, w')"
  shows "w' = w"
  using assms
  by (auto simp: getOrCreateContact_def Let_def split: option.splits if_splits)

lemma sendTemplateMessage_frame:
  assumes "sendTemplateMessage e w acct tmpl r = Some (res, w')"
  shows "campaigns w' = campaigns w" "accounts w' = accounts w" "recipients w' = recipients w"
    "messages w' = messages w" "published w' = published w" "contacts w' = contacts w"
    "res = (send_message_id e, send_error e)"
  using assms
  by (auto simp: sendTemplateMessage_def Let_def split: option.splits)

lemma sendTemplateMessage_nil [simp]: "sendTemplateMessage e w acct None r = None"
  by (simp add: sendTemplateMessage_def Let_def)

lemma sendTemplateMessage_Some:
  "\<exists>w'. sendTemplateMessage e w acct (Some t) r = Some ((send_message_id e, send_error e), w')"
  by (simp add: sendTemplateMessage_def Let_def)

subsection \<open>The three ways through one recipient\<close>

lemma process_recipient_no_contact:
  assumes "getOrCreateContact e w (c_OrganizationID c) (r_PhoneNumber r) (r_RecipientName r) = (None, w1)"
  shows "process_recipient e cid c a r s f w =
           (Some (s, f + 1),
            update_recipient (r_ID r)
              (\<lambda>r. r\<lparr>r_Status := ''failed'', r_ErrorMessage := ''Failed to create contact''\<rparr>) w)"
  using assms getOrCreateContact_None [OF assms] by (simp add: process_recipient_def)

lemma process_recipient_nil_template:
  assumes "getOrCreateContact e w (c_OrganizationID c) (r_PhoneNumber r) (r_RecipientName r) = (Some ct, w1)"
    and "c_Template c = None"
  shows "process_recipient e cid c a r s f w = (None, w1)"
  using assms by (simp add: process_recipient_def)

lemma process_recipient_send:
  assumes goc: "getOrCreateContact e w (c_OrganizationID c) (r_PhoneNumber r) (r_RecipientName r) = (Some ct, w1)"
    and tmpl: "c_Template c = Some t"
  obtains w' where
    "process_recipient e cid c a r s f w =
       (Some (case send_error e of Some txt \<Rightarrow> (s, f + 1) | None \<Rightarrow> (s + 1, f)), w')"
    "campaigns w' = map (\<lambda>x. if c_ID x = c_ID c
                               then x\<lparr>c_SentCount := (case send_error e of Some txt \<Rightarrow> s | None \<Rightarrow> s + 1),
                                      c_FailedCount := (case send_error e of Some txt \<Rightarrow> f + 1 | None \<Rightarrow> f)\<rparr>
                               else x) (campaigns w)"
    "recipients w' = map (\<lambda>x. if r_ID x = r_ID r
                               then (case send_error e of
                                       Some txt \<Rightarrow> x\<lparr>r_Status := ''failed'', r_WhatsAppMessageID := send_message_id e, r_ErrorMessage := txt\<rparr>
                                     | None \<Rightarrow> x\<lparr>r_Status := ''sent'', r_WhatsAppMessageID := send_message_id e, r_SentAt := Some (sent_time e)\<rparr>)
                               else x) (recipients w)"
    "messages w' = (if message_create_error e then messages w
                    else messages w @
                      [(case send_error e of
                          Some txt \<Rightarrow> (build_message cid c r ct (send_message_id e))\<lparr>m_Status := ''failed'', m_ErrorMessage := txt\<rparr>
                        | None \<Rightarrow> (build_message cid c r ct (send_message_id e))\<lparr>m_Status := ''sent''\<rparr>)\<lparr>m_ID := new_message_id e\<rparr>])"
    "contacts w' = contacts w1" "accounts w' = accounts w"
proof -
  note fr = getOrCreateContact_frame [OF goc]
  obtain w2 where snd: "sendTemplateMessage e w1 a (c_Template c) r = Some ((send_message_id e, send_error e), w2)"
    using sendTemplateMessage_Some [of e w1 a t r] tmpl by auto
  note fs = sendTemplateMessage_frame [OF snd]
  obtain res w' where pr: "process_recipient e cid c a r s f w = (res, w')"
    by (cases "process_recipient e cid c a r s f w")
  show ?thesis
  proof (rule that [of w'])
    show "process_recipient e cid c a r s f w =
       (Some (case send_error e of Some txt \<Rightarrow> (s, f + 1) | None \<Rightarrow> (s + 1, f)), w')"
      using pr goc snd by (auto simp: process_recipient_def Let_def split: option.splits)
    show "campaigns w' = map (\<lambda>x. if c_ID x = c_ID c
                               then x\<lparr>c_SentCount := (case send_error e of Some txt \<Rightarrow> s | None \<Rightarrow> s + 1),
                                      c_FailedCount := (case send_error e of Some txt \<Rightarrow> f + 1 | None \<Rightarrow> f)\<rparr>
                               else x) (campaigns w)"
      using pr goc snd fr fs by (auto simp: process_recipient_def Let_def split: option.splits)
    show "recipients w' = map (\<lambda>x. if r_ID x = r_ID r
                               then (case send_error e of
                                       Some txt \<Rightarrow> x\<lparr>r_Status := ''failed'', r_WhatsAppMessageID := send_message_id e, r_ErrorMessage := txt\<rparr>
                                     | None \<Rightarrow> x\<lparr>r_Status := ''sent'', r_WhatsAppMessageID := send_message_id e, r_SentAt := Some (sent_time e)\<rparr>)
                               else x) (recipients w)"
      using pr goc snd fr fs by (auto simp: process_recipient_def Let_def split: option.splits)
    show "messages w' = (if message_create_error e then messages w
                    else messages w @
                      [(case send_error e of
                          Some txt \<Rightarrow> (build_message cid c r ct (send_message_id e))\<lparr>m_Status := ''failed'', m_ErrorMessage := txt\<rparr>
                        | None \<Rightarrow> (build_message cid c r ct (send_message_id e))\<lparr>m_Status := ''sent''\<rparr>)\<lparr>m_ID := new_message_id e\<rparr>])"
      using pr goc snd fr fs by (auto simp: process_recipient_def Let_def split: option.splits)
    show "contacts w' = contacts w1" "accounts w' = accounts w"
      using pr goc snd fr fs by (auto simp: process_recipient_def Let_def split: option.splits)
  qed
qed


lemma process_recipient_counters:
  assumes "process_recipient e cid c a r s f w = (Some (s', f'), w')"
  shows "s' + f' = s + f + 1"
  using assms
  by (auto simp: process_recipient_def Let_def split: prod.splits option.splits)

lemma process_recipient_frame:
  assumes pr: "process_recipient e cid c a r s f w = (res, w')"
  shows "map c_ID (campaigns w') = map c_ID (campaigns w)"
    and "map r_ID (recipients w') = map r_ID (recipients w)"
    and "\<And>x. x \<in> set (recipients w) \<Longrightarrow> r_ID x \<noteq> r_ID r \<Longrightarrow> x \<in> set (recipients w')"
proof -
  obtain oc w1 where goc:
    "getOrCreateContact e w (c_OrganizationID c) (r_PhoneNumber r) (r_RecipientName r) = (oc, w1)"
    by (cases "getOrCreateContact e w (c_OrganizationID c) (r_PhoneNumber r) (r_RecipientName r)")
  note fr = getOrCreateContact_frame [OF goc]
  have "map c_ID (campaigns w') = map c_ID (campaigns w)
      \<and> map r_ID (recipients w') = map r_ID (recipients w)
      \<and> (\<forall>x. x \<in> set (recipients w) \<longrightarrow> r_ID x \<noteq> r_ID r \<longrightarrow> x \<in> set (recipients w'))"
  proof (cases oc)
    case None
    have "w' = update_recipient (r_ID r)
              (\<lambda>r. r\<lparr>r_Status := ''failed'', r_ErrorMessage := ''Failed to create contact''\<rparr>) w"
      using process_recipient_no_contact [OF goc [unfolded None]] pr by simp
    then show ?thesis by (simp add: comp_def image_iff)
  next
    case (Some ct)
    show ?thesis
    proof (cases "c_Template c")
      case None
      have "w' = w1" using process_recipient_nil_template [OF goc [unfolded Some] None] pr by simp
      then show ?thesis using fr by simp
    next
      case Some2: (Some t)
      obtain w'' where w'': "process_recipient e cid c a r s f w =
           (Some (case send_error e of Some txt \<Rightarrow> (s, f + 1) | None \<Rightarrow> (s + 1, f)), w'')"
        and cs: "campaigns w'' = map (\<lambda>x. if c_ID x = c_ID c
                               then x\<lparr>c_SentCount := (case send_error e of Some txt \<Rightarrow> s | None \<Rightarrow> s + 1),
                                      c_FailedCount := (case send_error e of Some txt \<Rightarrow> f + 1 | None \<Rightarrow> f)\<rparr>
                               else x) (campaigns w)"
        and rs: "recipients w'' = map (\<lambda>x. if r_ID x = r_ID r
                               then (case send_error e of
                                       Some txt \<Rightarrow> x\<lparr>r_Status := ''failed'', r_WhatsAppMessageID := send_message_id e, r_ErrorMessage := txt\<rparr>
                                     | None \<Rightarrow> x\<lparr>r_Status := ''sent'', r_WhatsAppMessageID := send_message_id e, r_SentAt := Some (sent_time e)\<rparr>)
                               else x) (recipients w)"
        using process_recipient_send [OF goc [unfolded Some] Some2, of cid a s f] by blast
      have eq: "w' = w''" using w'' pr by simp
      have "map c_ID (campaigns w') = map c_ID (campaigns w)"
        unfolding eq cs by (simp add: comp_def)
      moreover have "map r_ID (recipients w') = map r_ID (recipients w)"
        unfolding eq rs by (simp add: comp_def split: option.splits)
      moreover have "\<forall>x. x \<in> set (recipients w) \<longrightarrow> r_ID x \<noteq> r_ID r \<longrightarrow> x \<in> set (recipients w')"
        unfolding eq rs by (simp add: image_iff)
      ultimately show ?thesis by simp
    qed
  qed
  then show "map c_ID (campaigns w') = map c_ID (campaigns w)"
    and "map r_ID (recipients w') = map r_ID (recipients w)"
    and "\<And>x. x \<in> set (recipients w) \<Longrightarrow> r_ID x \<noteq> r_ID r \<Longrightarrow> x \<in> set (recipients w')"
    by simp_all
qed




subsection \<open>The loop\<close>

lemma recipient_loop_last:
  assumes "\<not> ctx_done (ienv k)"
    and "current_status (ienv k) cid (management_write (ienv k) cid w) \<noteq> ''paused''"
    and "current_status (ienv k) cid (management_write (ienv k) cid w) \<noteq> ''cancelled''"
    and "process_recipient (ienv k) cid c a r s f (management_write (ienv k) cid w) = (Some (s', f'), w')"
  shows "recipient_loop ienv k cid c a (r # rest) s f w = recipient_loop ienv (k + 1) cid c a rest s' f' w'"
    and "recipient_loop ienv k cid c a [r] s f w = (Exhausted s' f', w')"
  using assms by (simp_all add: Let_def)

lemma recipient_loop_counters:
  "recipient_loop ienv k cid c a rs s f w = (Exhausted s' f', w') \<Longrightarrow>
     s' + f' = s + f + of_nat (length rs)"
proof (induction rs arbitrary: k s f w)
  case Nil
  then show ?case by simp
next
  case (Cons r rs)
  let ?e = "ienv k"
  let ?w0 = "management_write ?e cid w"
  obtain res w1 where pr: "process_recipient ?e cid c a r s f ?w0 = (res, w1)"
    by (cases "process_recipient ?e cid c a r s f ?w0")
  from Cons.prems pr obtain s1 f1 where res: "res = Some (s1, f1)"
    and rest: "recipient_loop ienv (k + 1) cid c a rs s1 f1 w1 = (Exhausted s' f', w')"
    by (cases res) (auto simp: Let_def split: if_splits)
  from process_recipient_counters [OF pr [unfolded res]] have "s1 + f1 = s + f + 1" .
  with Cons.IH [OF rest] show ?case by simp
qed

lemma recipient_loop_frame:
  "recipient_loop ienv k cid c a rs s f w = (res, w') \<Longrightarrow>
     map c_ID (campaigns w') = map c_ID (campaigns w)
     \<and> map r_ID (recipients w') = map r_ID (recipients w)
     \<and> (\<forall>x. x \<in> set (recipients w) \<longrightarrow> r_ID x \<notin> r_ID ` set rs \<longrightarrow> x \<in> set (recipients w'))"
proof (induction rs arbitrary: k s f w)
  case Nil
  then show ?case by simp
next
  case (Cons r rs)
  let ?e = "ienv k"
  let ?w0 = "management_write ?e cid w"
  obtain pres w1 where pr: "process_recipient ?e cid c a r s f ?w0 = (pres, w1)"
    by (cases "process_recipient ?e cid c a r s f ?w0")
  note pf = process_recipient_frame [OF pr]
  have base: "map c_ID (campaigns ?w0) = map c_ID (campaigns w)" "recipients ?w0 = recipients w"
    by simp_all
  consider (stop) "w' = ?w0" | (panic) "w' = w1"
    | (continue) s1 f1 where "recipient_loop ienv (k + 1) cid c a rs s1 f1 w1 = (res, w')"
    using Cons.prems pr by (cases pres) (auto simp: Let_def split: if_splits)
  then show ?case
  proof cases
    case stop
    then show ?thesis using base by simp
  next
    case panic
    then show ?thesis using base pf by simp
  next
    case continue
    from Cons.IH [OF continue] base pf show ?thesis by simp
  qed
qed

lemma recipient_loop_append:
  "recipient_loop ienv k cid c a (pre @ rest) s f w =
     (case recipient_loop ienv k cid c a pre s f w of
        (Exhausted s' f', w') \<Rightarrow> recipient_loop ienv (k + length pre) cid c a rest s' f' w'
      | (other, w') \<Rightarrow> (other, w'))"
proof (induction pre arbitrary: k s f w)
  case Nil
  then show ?case by simp
next
  case (Cons r pre)
  show ?case
    by (simp add: Let_def Cons.IH split: prod.splits option.splits loop_end.splits)
qed

subsection \<open>The loaded campaign\<close>

lemma load_campaign_SomeD:
  assumes "load_campaign env w cid = Some c"
  shows "c \<in> set (campaigns w)" "c_ID c = cid"
proof -
  have "db_first c_ID (\<lambda>c. c_ID c = cid) (campaigns w) = Some c"
    using assms by (simp add: load_campaign_def split: if_splits)
  from db_first_SomeD [OF this] show "c \<in> set (campaigns w)" "c_ID c = cid" by simp_all
qed

section \<open>The claims\<close>

subsection \<open>Counters after a completed run\<close>

text \<open>
  Claim C1, amended. The counters of a run start from the counters the campaign carries
  when it is loaded (a resumed campaign brings those of its earlier runs), and they are Go
  ints. After a run that completes normally the persisted \<open>sent_count + failed_count\<close> is
  the sum of the two counters at run start plus the number of recipients pending at run
  start, in the wrapping arithmetic of 64-bit ints.
\<close>

theorem C1_completed_counters:
  assumes "processCampaign env ienv w cid = (Completed, w')"
  shows "\<exists>c c'. load_campaign env w cid = Some c
             \<and> db_first c_ID (\<lambda>x. c_ID x = cid) (campaigns w') = Some c'
             \<and> c_SentCount c' + c_FailedCount c' =
                 c_SentCount c + c_FailedCount c + of_nat (length (pending_recipients w cid))"
proof -
  obtain c where c: "load_campaign env w cid = Some c"
    using assms by (cases "load_campaign env w cid") (simp_all add: processCampaign_def)
  note cid = load_campaign_SomeD [OF c]
  obtain a where a: "load_account env w c = Some a"
    using assms c by (cases "load_account env w c") (simp_all add: processCampaign_def split: if_splits)
  let ?w1 = "update_campaign cid (\<lambda>c. c\<lparr>c_Status := ''processing''\<rparr>) w"
  have pend: "pending_recipients ?w1 cid = pending_recipients w cid"
    by (simp add: pending_recipients_def)
  obtain le w2 where loop: "recipient_loop ienv 0 cid c a (pending_recipients w cid)
                              (c_SentCount c) (c_FailedCount c) ?w1 = (le, w2)"
    by (cases "recipient_loop ienv 0 cid c a (pending_recipients w cid)
                              (c_SentCount c) (c_FailedCount c) ?w1")
  let ?g = "\<lambda>s f x. if c_ID x = cid
                    then x\<lparr>c_Status := ''completed'', c_CompletedAt := Some (completion_time env),
                           c_SentCount := s, c_FailedCount := f\<rparr>
                    else x"
  from assms c a cid(2) loop pend obtain s f where le: "le = Exhausted s f"
    and w': "campaigns w' = map (?g s f) (campaigns w2)"
    by (cases le) (auto simp: processCampaign_def Let_def split: if_splits)
  from recipient_loop_counters [OF loop [unfolded le]]
  have sum: "s + f = c_SentCount c + c_FailedCount c + of_nat (length (pending_recipients w cid))" .
  from recipient_loop_frame [OF loop]
  have "map c_ID (campaigns w2) = map c_ID (campaigns w)" by (simp add: comp_def)
  then have "c_ID ` set (campaigns w2) = c_ID ` set (campaigns w)"
    by (metis set_map)
  with cid obtain x where x: "x \<in> set (campaigns w2)" "c_ID x = cid" by force
  then obtain y where y: "db_first c_ID (\<lambda>x. c_ID x = cid) (campaigns w2) = Some y"
    using db_first_Some_ex [of x "campaigns w2" "\<lambda>x. c_ID x = cid" c_ID] by auto
  have "db_first c_ID (\<lambda>x. c_ID x = cid) (map (?g s f) (campaigns w2)) =
        map_option (?g s f) (db_first c_ID (\<lambda>x. c_ID x = cid) (campaigns w2))"
    by (rule db_first_map) simp_all
  then have "db_first c_ID (\<lambda>x. c_ID x = cid) (campaigns w') = Some (?g s f y)"
    using y w' by simp
  moreover have "c_ID y = cid" using db_first_SomeD [OF y] by simp
  ultimately show ?thesis using c sum by auto
qed

theorem C1_witness:
  "(\<exists>c c'. load_campaign demo_env demo_store ''c1'' = Some c
     \<and> db_first c_ID (\<lambda>x. c_ID x = ''c1'')
          (campaigns (snd (processCampaign demo_env demo_iter demo_store ''c1''))) = Some c'
     \<and> c_SentCount c' + c_FailedCount c' =
          c_SentCount c + c_FailedCount c + of_nat (length (pending_recipients demo_store ''c1'')))
   \<and> map c_SentCount (campaigns (snd (processCampaign demo_env demo_iter demo_store ''c1''))) = [3]
   \<and> (\<exists>c c'. load_campaign demo_env saturated_store ''c1'' = Some c
     \<and> db_first c_ID (\<lambda>x. c_ID x = ''c1'')
          (campaigns (snd (processCampaign demo_env demo_iter saturated_store ''c1''))) = Some c'
     \<and> c_SentCount c' + c_FailedCount c' =
          c_SentCount c + c_FailedCount c + of_nat (length (pending_recipients saturated_store ''c1'')))
   \<and> map sint (map c_SentCount (campaigns saturated_store)) = [9223372036854775807]
   \<and> map sint (map c_SentCount
        (campaigns (snd (processCampaign demo_env demo_iter saturated_store ''c1''))))
       = [- 9223372036854775808]"
proof -
  have "fst (processCampaign demo_env demo_iter demo_store ''c1'') = Completed"
    by code_simp
  then have "processCampaign demo_env demo_iter demo_store ''c1'' =
               (Completed, snd (processCampaign demo_env demo_iter demo_store ''c1''))"
    by (metis prod.collapse)
  then have one: "\<exists>c c'. load_campaign demo_env demo_store ''c1'' = Some c
     \<and> db_first c_ID (\<lambda>x. c_ID x = ''c1'')
          (campaigns (snd (processCampaign demo_env demo_iter demo_store ''c1''))) = Some c'
     \<and> c_SentCount c' + c_FailedCount c' =
          c_SentCount c + c_FailedCount c + of_nat (length (pending_recipients demo_store ''c1''))"
    by (rule C1_completed_counters)
  have "fst (processCampaign demo_env demo_iter saturated_store ''c1'') = Completed"
    by code_simp
  then have "processCampaign demo_env demo_iter saturated_store ''c1'' =
               (Completed, snd (processCampaign demo_env demo_iter saturated_store ''c1''))"
    by (metis prod.collapse)
  then have two: "\<exists>c c'. load_campaign demo_env saturated_store ''c1'' = Some c
     \<and> db_first c_ID (\<lambda>x. c_ID x = ''c1'')
          (campaigns (snd (processCampaign demo_env demo_iter saturated_store ''c1''))) = Some c'
     \<and> c_SentCount c' + c_FailedCount c' =
          c_SentCount c + c_FailedCount c + of_nat (length (pending_recipients saturated_store ''c1''))"
    by (rule C1_completed_counters)
  have ev1: "map c_SentCount (campaigns (snd (processCampaign demo_env demo_iter demo_store ''c1''))) = [3]"
    by code_simp
  have ev2: "map sint (map c_SentCount (campaigns saturated_store)) = [9223372036854775807]"
    by code_simp
  have ev3: "map sint (map c_SentCount
        (campaigns (snd (processCampaign demo_env demo_iter saturated_store ''c1''))))
       = [- 9223372036854775808]"
    by code_simp
  from one ev1 two ev2 ev3 show ?thesis by (intro conjI)
qed

text \<open>
  The claim as stated (the sum equals the number of pending recipients) fails for a
  resumed campaign: one recipient was sent in an earlier run, one is pending, and the
  completed run leaves \<open>sent_count = 2\<close>, \<open>failed_count = 0\<close>.
\<close>

theorem C1_counterexample:
  "fst (processCampaign demo_env demo_iter resumed_store ''c1'') = Completed
   \<and> length (pending_recipients resumed_store ''c1'') = 1
   \<and> map c_SentCount (campaigns (snd (processCampaign demo_env demo_iter resumed_store ''c1''))) = [2]
   \<and> map c_FailedCount (campaigns (snd (processCampaign demo_env demo_iter resumed_store ''c1''))) = [0]"
  by code_simp

subsection \<open>A paused or cancelled campaign stops the run\<close>

lemma current_status_stored:
  assumes "current_status e cid w = status" and "status \<noteq> []"
  shows "campaign_status w cid = Some status"
  using assms
  by (auto simp: current_status_def campaign_status_def split: if_splits option.splits)

text \<open>
  Claim C2. Let the pending recipients be \<open>pre @ r # post\<close>, let the loop have run through
  \<open>pre\<close>, and let the status polled before the iteration of \<open>r\<close> be \<open>paused\<close> or
  \<open>cancelled\<close>. Then the run returns nil; the recipients table is as the iterations of
  \<open>pre\<close> left it; the rows of \<open>r\<close> and of every later recipient are still in the table as
  they were loaded, \<open>pending\<close>; and the campaign reads the polled status afterwards (it is
  not overwritten with \<open>completed\<close>).
\<close>

theorem C2_paused_or_cancelled_stops:
  assumes c: "load_campaign env w cid = Some c"
    and st: "c_Status c = ''queued'' \<or> c_Status c = ''processing''"
    and a: "load_account env w c = Some a"
    and nr: "\<not> recipients_load_error env"
    and split: "pending_recipients w cid = pre @ r # post"
    and dist: "distinct (map r_ID (recipients w))"
    and before: "recipient_loop ienv 0 cid c a pre (c_SentCount c) (c_FailedCount c)
                   (update_campaign cid (\<lambda>c. c\<lparr>c_Status := ''processing''\<rparr>) w) = (Exhausted s f, w1)"
    and ctx: "\<not> ctx_done (ienv (length pre))"
    and polled: "current_status (ienv (length pre)) cid
                   (management_write (ienv (length pre)) cid w1) = status"
    and stop: "status = ''paused'' \<or> status = ''cancelled''"
  shows "\<exists>w'. processCampaign env ienv w cid = (Stopped, w')
            \<and> handleCampaignJob env ienv w cid = (Nil, w')
            \<and> recipients w' = recipients w1
            \<and> (\<forall>x \<in> set (r # post). x \<in> set (recipients w') \<and> r_Status x = ''pending'')
            \<and> campaign_status w' cid = Some status"
proof -
  let ?w0 = "update_campaign cid (\<lambda>c. c\<lparr>c_Status := ''processing''\<rparr>) w"
  let ?e = "ienv (length pre)"
  let ?w' = "management_write ?e cid w1"
  note cid = load_campaign_SomeD [OF c]
  have pend: "pending_recipients ?w0 cid = pre @ r # post"
    using split by (simp add: pending_recipients_def)
  have "current_status ?e cid ?w' = ''paused'' \<or> current_status ?e cid ?w' = ''cancelled''"
    using polled stop by simp
  then have here: "recipient_loop ienv (length pre) cid c a (r # post) s f w1 = (StoppedByStatus, ?w')"
    using ctx by (simp add: Let_def)
  have "recipient_loop ienv 0 cid c a (pre @ r # post) (c_SentCount c) (c_FailedCount c) ?w0
          = recipient_loop ienv (0 + length pre) cid c a (r # post) s f w1"
    by (simp only: recipient_loop_append before prod.case loop_end.case)
  then have loop: "recipient_loop ienv 0 cid c a (pre @ r # post) (c_SentCount c) (c_FailedCount c) ?w0
                = (StoppedByStatus, ?w')"
    using here by (simp only: add_0)
  have run: "processCampaign env ienv w cid = (Stopped, ?w')"
    using c st a nr cid(2) pend loop by (auto simp: processCampaign_def Let_def)
  have ids: "distinct (map r_ID (pre @ r # post))"
    using dist split [symmetric] by (simp only: pending_recipients_def distinct_map_filter)
  have later: "\<forall>x \<in> set (r # post). x \<in> set (recipients ?w') \<and> r_Status x = ''pending''"
  proof
    fix x assume x: "x \<in> set (r # post)"
    then have "x \<in> set (pending_recipients w cid)" using split by auto
    then have xin: "x \<in> set (recipients ?w0)" and xp: "r_Status x = ''pending''"
      by (simp_all add: pending_recipients_def)
    have "r_ID x \<notin> r_ID ` set pre" using ids x by auto
    with recipient_loop_frame [OF before] xin have "x \<in> set (recipients w1)" by blast
    then show "x \<in> set (recipients ?w') \<and> r_Status x = ''pending''" using xp by simp
  qed
  have "status \<noteq> []" using stop by auto
  from current_status_stored [OF polled this] have "campaign_status ?w' cid = Some status" .
  with run later show ?thesis by (simp add: handleCampaignJob_def)
qed

theorem C2_witness:
  "\<exists>w'. processCampaign demo_env cancel_after_first demo_store ''c1'' = (Stopped, w')
      \<and> handleCampaignJob demo_env cancel_after_first demo_store ''c1'' = (Nil, w')
      \<and> recipients w' = recipients (snd (recipient_loop cancel_after_first 0 ''c1'' demo_campaign demo_account
           [demo_recipient ''r1'' ''+15550001''] (c_SentCount demo_campaign) (c_FailedCount demo_campaign)
           (update_campaign ''c1'' (\<lambda>c. c\<lparr>c_Status := ''processing''\<rparr>) demo_store)))
      \<and> (\<forall>x \<in> set (demo_recipient ''r2'' ''15550002'' # [demo_recipient ''r3'' ''15550003'']).
            x \<in> set (recipients w') \<and> r_Status x = ''pending'')
      \<and> campaign_status w' ''c1'' = Some ''cancelled''"
proof -
  let ?w1 = "snd (recipient_loop cancel_after_first 0 ''c1'' demo_campaign demo_account
           [demo_recipient ''r1'' ''+15550001''] (c_SentCount demo_campaign) (c_FailedCount demo_campaign)
           (update_campaign ''c1'' (\<lambda>c. c\<lparr>c_Status := ''processing''\<rparr>) demo_store))"
  have c: "load_campaign demo_env demo_store ''c1'' = Some demo_campaign" by code_simp
  have st: "c_Status demo_campaign = ''queued'' \<or> c_Status demo_campaign = ''processing''"
    by code_simp
  have a: "load_account demo_env demo_store demo_campaign = Some demo_account" by code_simp
  have nr: "\<not> recipients_load_error demo_env" by code_simp
  have split: "pending_recipients demo_store ''c1'' =
                 [demo_recipient ''r1'' ''+15550001''] @ demo_recipient ''r2'' ''15550002''
                   # [demo_recipient ''r3'' ''15550003'']"
    by code_simp
  have dist: "distinct (map r_ID (recipients demo_store))" by code_simp
  have "fst (recipient_loop cancel_after_first 0 ''c1'' demo_campaign demo_account
           [demo_recipient ''r1'' ''+15550001''] (c_SentCount demo_campaign) (c_FailedCount demo_campaign)
           (update_campaign ''c1'' (\<lambda>c. c\<lparr>c_Status := ''processing''\<rparr>) demo_store)) = Exhausted 1 0"
    by code_simp
  then have before: "recipient_loop cancel_after_first 0 ''c1'' demo_campaign demo_account
           [demo_recipient ''r1'' ''+15550001''] (c_SentCount demo_campaign) (c_FailedCount demo_campaign)
           (update_campaign ''c1'' (\<lambda>c. c\<lparr>c_Status := ''processing''\<rparr>) demo_store) = (Exhausted 1 0, ?w1)"
    by (metis prod.collapse)
  have ctx: "\<not> ctx_done (cancel_after_first (length [demo_recipient ''r1'' ''+15550001'']))"
    by code_simp
  have polled: "current_status (cancel_after_first (length [demo_recipient ''r1'' ''+15550001''])) ''c1''
                  (management_write (cancel_after_first (length [demo_recipient ''r1'' ''+15550001''])) ''c1'' ?w1)
                = ''cancelled''"
    by code_simp
  have stop: "''cancelled'' = ''paused'' \<or> ''cancelled'' = ''cancelled''" by simp
  show ?thesis
    by (rule C2_paused_or_cancelled_stops
          [where ienv = cancel_after_first and pre = "[demo_recipient ''r1'' ''+15550001'']",
           OF c st a nr split dist before ctx polled stop])
qed

subsection \<open>A campaign without its template\<close>

text \<open>
  Claim C3. A campaign that loads without its template should be failed with an error and
  the missing template never dereferenced. On the sample campaign without a template the
  run sets the campaign to \<open>processing\<close>, resolves the first contact and then dereferences
  the nil template in \<open>sendTemplateMessage\<close>: the run panics, no error is returned, the
  campaign still reads \<open>processing\<close> and every recipient is still \<open>pending\<close>.
\<close>

theorem C3_nil_template_panics:
  "fst (processCampaign demo_env demo_iter nil_template_store ''c1'') = Panicked
   \<and> handleCampaignJob demo_env demo_iter nil_template_store ''c1''
       = (Panic, snd (processCampaign demo_env demo_iter nil_template_store ''c1''))
   \<and> campaign_status (snd (processCampaign demo_env demo_iter nil_template_store ''c1'')) ''c1''
       = Some ''processing''
   \<and> map r_Status (recipients (snd (processCampaign demo_env demo_iter nil_template_store ''c1'')))
       = [''pending'', ''pending'', ''pending'']"
  by code_simp

subsection \<open>The rendered content\<close>

lemma brace_free_simps [simp]:
  "brace_free []"
  "brace_free (c # s) \<longleftrightarrow> c \<noteq> CHR ''{'' \<and> c \<noteq> CHR ''}'' \<and> brace_free s"
  "brace_free (s @ t) \<longleftrightarrow> brace_free s \<and> brace_free t"
  by (auto simp: brace_free_def)

lemma brace_free_not_open: "brace_free s \<Longrightarrow> CHR ''{'' \<notin> set s"
  by (induction s) auto

lemma replace_all_skip:
  assumes "old = a # old'" and "a \<notin> set p"
  shows "replace_all (p @ s) old new = p @ replace_all s old new"
  using assms(2)
proof (induction p)
  case Nil
  then show ?case by simp
next
  case (Cons c p)
  then have "c \<noteq> a" by auto
  then have "replace_all (c # p @ s) old new = c # replace_all (p @ s) old new"
    by (simp add: replace_all.simps assms(1))
  with Cons show ?case by simp
qed

lemma closing_prefix_same_key:
  assumes "prefix (k @ CHR ''}'' # x) (k' @ CHR ''}'' # y)" and "brace_free k" and "brace_free k'"
  shows "k = k'"
  using assms
proof (induction k arbitrary: k')
  case Nil
  then show ?case by (cases k') auto
next
  case (Cons c k)
  then show ?case by (cases k') auto
qed

lemma sprint_d_digits: "set (sprint_d n) \<subseteq> set ''0123456789''"
proof (induction n rule: sprint_d.induct)
  case (1 n)
  have d: "\<And>m. m < 10 \<Longrightarrow> digit_char m \<in> set ''0123456789''"
    unfolding digit_char_def by (rule nth_mem) simp
  show ?case
  proof (cases "n < 10")
    case True
    then show ?thesis using d [of n] by (subst sprint_d.simps) simp
  next
    case False
    have "digit_char (n mod 10) \<in> set ''0123456789''" by (rule d) simp
    then show ?thesis using False 1 by (subst sprint_d.simps) simp
  qed
qed

lemma sprint_d_brace_free: "brace_free (sprint_d n)"
proof -
  have "\<forall>c \<in> set (sprint_d n). c \<noteq> CHR ''{'' \<and> c \<noteq> CHR ''}''"
    using sprint_d_digits [of n] by auto
  then show ?thesis by (simp add: brace_free_def list_all_iff)
qed

lemma substituted_text_simps [simp]:
  "substituted_text k v (Lit c) = [c]"
  "substituted_text k v (Placeholder k) = v"
  "k' \<noteq> k \<Longrightarrow> substituted_text k v (Placeholder k') = ''{{'' @ k' @ ''}}''"
  by (simp_all add: substituted_text_def)

lemma replace_all_placeholder_hit:
  "replace_all (''{{'' @ k @ ''}}'' @ rest) (''{{'' @ k @ ''}}'') v
     = v @ replace_all rest (''{{'' @ k @ ''}}'') v"
proof -
  have "replace_all ((''{{'' @ k @ ''}}'') @ rest) (''{{'' @ k @ ''}}'') v
          = v @ replace_all (drop (length (''{{'' @ k @ ''}}'')) ((''{{'' @ k @ ''}}'') @ rest))
                  (''{{'' @ k @ ''}}'') v"
    by (simp add: replace_all.simps)
  then show ?thesis by simp
qed

lemma replace_all_placeholder_miss:
  assumes "k' \<noteq> k" and "brace_free k" and "brace_free k'"
  shows "replace_all (''{{'' @ k' @ ''}}'' @ rest) (''{{'' @ k @ ''}}'') v
     = ''{{'' @ k' @ ''}}'' @ replace_all rest (''{{'' @ k @ ''}}'') v"
proof -
  let ?old = "''{{'' @ k @ ''}}''"
  have no: "\<not> prefix (k @ ''}}'') (k' @ ''}}'' @ rest)"
    using closing_prefix_same_key [of k "''}''" k' "''}'' @ rest"] assms by auto
  have one: "replace_all (''{{'' @ k' @ ''}}'' @ rest) ?old v
               = CHR ''{'' # replace_all (CHR ''{'' # k' @ ''}}'' @ rest) ?old v"
    using no by (simp add: replace_all.simps)
  have "\<not> prefix (CHR ''{'' # k @ ''}}'') (k' @ ''}}'' @ rest)"
    using assms(3) by (cases k') auto
  then have two: "replace_all (CHR ''{'' # k' @ ''}}'' @ rest) ?old v
               = CHR ''{'' # replace_all ((k' @ ''}}'') @ rest) ?old v"
    by (simp add: replace_all.simps)
  have "CHR ''{'' \<notin> set (k' @ ''}}'')"
    using brace_free_not_open [OF assms(3)] by simp
  moreover have "?old = CHR ''{'' # (CHR ''{'' # k @ ''}}'')" by simp
  ultimately have three: "replace_all ((k' @ ''}}'') @ rest) ?old v = (k' @ ''}}'') @ replace_all rest ?old v"
    by (rule replace_all_skip [rotated])
  show ?thesis unfolding one two three by simp
qed

lemma replace_all_tokens:
  assumes "braces_only_in_placeholders ts" and "brace_free k"
  shows "replace_all (body_text ts) (''{{'' @ k @ ''}}'') v = concat (map (substituted_text k v) ts)"
  using assms(1)
proof (induction ts)
  case Nil
  then show ?case by (simp add: body_text_def replace_all.simps)
next
  case (Cons t ts)
  then have wf: "plain_token t" and rest: "braces_only_in_placeholders ts"
    by (simp_all add: braces_only_in_placeholders_def)
  note IH = Cons.IH [OF rest]
  show ?case
  proof (cases t)
    case (Lit c)
    then have "c \<noteq> CHR ''{''" using wf by simp
    then have "replace_all (c # body_text ts) (''{{'' @ k @ ''}}'') v
                 = c # replace_all (body_text ts) (''{{'' @ k @ ''}}'') v"
      by (simp add: replace_all.simps)
    then show ?thesis using Lit IH by (simp add: body_text_def)
  next
    case (Placeholder k')
    then have bf: "brace_free k'" using wf by simp
    have bt: "body_text (t # ts) = ''{{'' @ k' @ ''}}'' @ body_text ts"
      using Placeholder by (simp add: body_text_def)
    show ?thesis
    proof (cases "k' = k")
      case True
      show ?thesis
        unfolding bt True replace_all_placeholder_hit IH
        using Placeholder True by simp
    next
      case False
      show ?thesis
        unfolding bt replace_all_placeholder_miss [OF False assms(2) bf] IH
        using Placeholder False by simp
    qed
  qed
qed

lemma body_text_literals: "body_text (map Lit v) = v"
  by (induction v) (simp_all add: body_text_def)

lemma body_text_substitute_tokens:
  "body_text (substitute_tokens k v ts) = concat (map (substituted_text k v) ts)"
proof (induction ts)
  case Nil
  then show ?case by (simp add: substitute_tokens_def body_text_def)
next
  case (Cons t ts)
  have "body_text (substitute_tokens k v (t # ts))
          = body_text (if t = Placeholder k then map Lit v else [t]) @ body_text (substitute_tokens k v ts)"
    by (simp add: substitute_tokens_def body_text_def)
  also have "body_text (if t = Placeholder k then map Lit v else [t]) = substituted_text k v t"
    by (simp add: body_text_literals substituted_text_def) (simp add: body_text_def)
  finally show ?case using Cons by simp
qed

lemma literals_plain: "brace_free v \<Longrightarrow> list_all plain_token (map Lit v)"
  by (induction v) simp_all

lemma substitute_tokens_plain:
  assumes "braces_only_in_placeholders ts" and "brace_free v"
  shows "braces_only_in_placeholders (substitute_tokens k v ts)"
  using assms(1)
  by (induction ts)
     (simp_all add: braces_only_in_placeholders_def substitute_tokens_def literals_plain [OF assms(2)])

lemma expected_from_literals: "concat (map (expected_from i params) (map Lit v)) = v"
  by (induction v) simp_all

lemma keys_from: "i \<le> 10 \<Longrightarrow> set (map sprint_d [i..<11]) = insert (sprint_d i) (set (map sprint_d [Suc i..<11]))"
  by (simp add: upt_conv_Cons)

lemma expected_from_done: "10 < i \<Longrightarrow> expected_from i params t = token_text t"
  by (cases t) simp_all

lemma expected_from_absent:
  assumes "i \<le> 10" and "map_of params (sprint_d i) = None"
  shows "expected_from i params t = expected_from (Suc i) params t"
proof (cases t)
  case (Lit c)
  then show ?thesis by simp
next
  case (Placeholder k)
  show ?thesis
    unfolding Placeholder expected_from.simps keys_from [OF assms(1)]
    using assms(2) by auto
qed

lemma expected_from_present:
  assumes "i \<le> 10" and "map_of params (sprint_d i) = Some v"
  shows "concat (map (expected_from (Suc i) params) (substitute_tokens (sprint_d i) v ts))
           = concat (map (expected_from i params) ts)"
proof (induction ts)
  case Nil
  then show ?case by (simp add: substitute_tokens_def)
next
  case (Cons t ts)
  have split: "substitute_tokens (sprint_d i) v (t # ts)
                 = (if t = Placeholder (sprint_d i) then map Lit v else [t])
                   @ substitute_tokens (sprint_d i) v ts"
    by (simp add: substitute_tokens_def)
  have head: "concat (map (expected_from (Suc i) params)
                        (if t = Placeholder (sprint_d i) then map Lit v else [t]))
                = expected_from i params t"
  proof (cases t)
    case (Lit c)
    then show ?thesis by simp
  next
    case (Placeholder k)
    show ?thesis
    proof (cases "k = sprint_d i")
      case True
      have "expected_from i params (Placeholder (sprint_d i)) = v"
        unfolding expected_from.simps keys_from [OF assms(1)] using assms(2) by simp
      then show ?thesis using Placeholder True by (simp add: expected_from_literals del: map_map)
    next
      case False
      have "expected_from i params (Placeholder k) = expected_from (Suc i) params (Placeholder k)"
        unfolding expected_from.simps keys_from [OF assms(1)] using False by simp
      then show ?thesis using Placeholder False by simp
    qed
  qed
  show ?case unfolding split using head Cons by simp
qed

lemma substitute_from_tokens:
  assumes "braces_only_in_placeholders ts"
    and "\<forall>j v. i \<le> j \<and> j \<le> 10 \<and> map_of params (sprint_d j) = Some v \<longrightarrow> brace_free v"
  shows "substitute_from i params (body_text ts) = concat (map (expected_from i params) ts)"
  using assms
proof (induction "11 - i" arbitrary: i ts)
  case 0
  then have "10 < i" by simp
  then have "expected_from i params = token_text"
    by (intro ext) (rule expected_from_done)
  moreover have "substitute_from i params (body_text ts) = body_text ts"
    using \<open>10 < i\<close> by (subst substitute_from.simps) simp
  ultimately show ?case by (simp add: body_text_def)
next
  case (Suc n)
  then have le: "i \<le> 10" and n: "n = 11 - Suc i" by simp_all
  have vals: "\<forall>j v. Suc i \<le> j \<and> j \<le> 10 \<and> map_of params (sprint_d j) = Some v \<longrightarrow> brace_free v"
  proof (intro allI impI)
    fix j v assume "Suc i \<le> j \<and> j \<le> 10 \<and> map_of params (sprint_d j) = Some v"
    then have "i \<le> j \<and> j \<le> 10 \<and> map_of params (sprint_d j) = Some v" by simp
    with Suc.prems(2) show "brace_free v" by blast
  qed
  show ?case
  proof (cases "map_of params (sprint_d i)")
    case None
    have "substitute_from i params (body_text ts) = substitute_from (Suc i) params (body_text ts)"
      using le None by (subst substitute_from.simps) simp
    also have "\<dots> = concat (map (expected_from (Suc i) params) ts)"
      by (rule Suc.hyps(1) [OF n Suc.prems(1) vals])
    also have "expected_from (Suc i) params = expected_from i params"
      by (intro ext) (rule expected_from_absent [OF le None, symmetric])
    finally show ?thesis .
  next
    case (Some v)
    have bf: "brace_free v" using Suc.prems(2) le Some by blast
    let ?ts = "substitute_tokens (sprint_d i) v ts"
    have "substitute_from i params (body_text ts)
            = substitute_from (Suc i) params
                (replace_all (body_text ts) (''{{'' @ sprint_d i @ ''}}'') v)"
      using le Some by (subst substitute_from.simps) simp
    also have "replace_all (body_text ts) (''{{'' @ sprint_d i @ ''}}'') v = body_text ?ts"
      by (simp only: replace_all_tokens [OF Suc.prems(1) sprint_d_brace_free]
            body_text_substitute_tokens)
    also have "substitute_from (Suc i) params (body_text ?ts)
                 = concat (map (expected_from (Suc i) params) ?ts)"
      by (rule Suc.hyps(1) [OF n substitute_tokens_plain [OF Suc.prems(1) bf] vals])
    finally show ?thesis by (simp only: expected_from_present [OF le Some])
  qed
qed

lemma substitute_from_foldl:
  "substitute_from i params content = foldl (substitute_one params) content [i..<11]"
proof (induction "11 - i" arbitrary: i content)
  case 0
  then show ?case by (subst substitute_from.simps) simp
next
  case (Suc n)
  then have le: "i \<le> 10" and n: "n = 11 - Suc i" by simp_all
  have "substitute_from i params content
          = substitute_from (Suc i) params (substitute_one params content i)"
    using le by (subst substitute_from.simps) (simp add: substitute_one_def split: option.splits)
  also have "\<dots> = foldl (substitute_one params) (substitute_one params content i) [Suc i..<11]"
    by (rule Suc.hyps(1) [OF n])
  finally show ?case using le by (simp add: upt_conv_Cons)
qed

lemma expected_token_no_params: "expected_token [] t = token_text t"
  by (cases t) simp_all

lemma expected_from_first: "expected_from 1 params t = expected_token params t"
  by (cases t) (simp_all add: supported_keys_def)

lemma render_content_tokens:
  assumes "braces_only_in_placeholders ts" and "brace_free_values templateParams"
  shows "render_content (body_text ts) templateParams = expected_content templateParams ts"
proof (cases templateParams)
  case None
  have "expected_token [] = token_text" by (intro ext) (rule expected_token_no_params)
  then show ?thesis using None by (simp add: render_content_def expected_content_def body_text_def)
next
  case (Some params)
  have vals: "\<forall>j v. 1 \<le> j \<and> j \<le> 10 \<and> map_of params (sprint_d j) = Some v \<longrightarrow> brace_free v"
  proof (intro allI impI)
    fix j v assume h: "1 \<le> j \<and> j \<le> 10 \<and> map_of params (sprint_d j) = Some v"
    then have "sprint_d j \<in> set supported_keys" by (simp add: supported_keys_def)
    moreover have "\<forall>k \<in> set supported_keys.
                     case map_of params k of None \<Rightarrow> True | Some val \<Rightarrow> brace_free val"
      using assms(2) Some by (simp add: brace_free_values_def list_all_iff)
    ultimately show "brace_free v" using h by force
  qed
  have "expected_from 1 params = expected_token params"
    by (intro ext) (rule expected_from_first)
  then show ?thesis
    using substitute_from_tokens [OF assms(1) vals] Some
    by (simp add: render_content_def expected_content_def)
qed

text \<open>
  Claim C4, amended. The content is the result of ten replacements made one after the
  other, for \<open>i = 1, \<dots>, 10\<close>, each on the content the earlier ones produced. For a body in
  which braces occur only in the delimiters of placeholders and parameters whose values for
  the keys \<open>"1"\<close> to \<open>"10"\<close> contain no brace, this is the content the specification
  describes: every placeholder \<open>{{i}}\<close> with \<open>1 \<le> i \<le> 10\<close> whose key is present is replaced
  by the parameter's value, every other placeholder stays literal, and keys other than
  \<open>"1"\<close> to \<open>"10"\<close> are ignored.
\<close>

theorem C4_placeholders_substituted:
  "(braces_only_in_placeholders ts \<and> brace_free_values templateParams
      \<longrightarrow> render_content (body_text ts) templateParams = expected_content templateParams ts)
   \<and> render_content bodyContent templateParams =
       (case templateParams of
          None \<Rightarrow> bodyContent
        | Some params \<Rightarrow> foldl (substitute_one params) bodyContent [1..<11])"
proof (intro conjI impI)
  assume "braces_only_in_placeholders ts \<and> brace_free_values templateParams"
  then show "render_content (body_text ts) templateParams = expected_content templateParams ts"
    by (simp add: render_content_tokens)
next
  show "render_content bodyContent templateParams =
       (case templateParams of
          None \<Rightarrow> bodyContent
        | Some params \<Rightarrow> foldl (substitute_one params) bodyContent [1..<11])"
    by (simp add: render_content_def substitute_from_foldl split: option.splits)
qed

theorem C4_witness:
  "render_content ''Hi {{1}}, your order {{2}} shipped'' (Some [(''1'', ''Ana''), (''2'', ''#42'')])
     = ''Hi Ana, your order #42 shipped''
   \<and> render_content ''{{1}} {{3}} {{11}}'' (Some [(''1'', ''Ana''), (''11'', ''x'')])
     = ''Ana {{3}} {{11}}''"
proof -
  have a: "braces_only_in_placeholders order_body" by code_simp
  have b: "brace_free_values (Some [(''1'', ''Ana''), (''2'', ''#42'')])" by code_simp
  have c: "body_text order_body = ''Hi {{1}}, your order {{2}} shipped''" by code_simp
  have d: "expected_content (Some [(''1'', ''Ana''), (''2'', ''#42'')]) order_body
             = ''Hi Ana, your order #42 shipped''" by code_simp
  have a': "braces_only_in_placeholders mixed_body" by code_simp
  have b': "brace_free_values (Some [(''1'', ''Ana''), (''11'', ''x'')])" by code_simp
  have c': "body_text mixed_body = ''{{1}} {{3}} {{11}}''" by code_simp
  have d': "expected_content (Some [(''1'', ''Ana''), (''11'', ''x'')]) mixed_body
             = ''Ana {{3}} {{11}}''" by code_simp
  have "render_content (body_text order_body) (Some [(''1'', ''Ana''), (''2'', ''#42'')])
          = expected_content (Some [(''1'', ''Ana''), (''2'', ''#42'')]) order_body"
    by (rule C4_placeholders_substituted [THEN conjunct1, rule_format]) (simp only: a b)
  moreover
  have "render_content (body_text mixed_body) (Some [(''1'', ''Ana''), (''11'', ''x'')])
          = expected_content (Some [(''1'', ''Ana''), (''11'', ''x'')]) mixed_body"
    by (rule C4_placeholders_substituted [THEN conjunct1, rule_format]) (simp only: a' b')
  ultimately show ?thesis unfolding c d c' d' by (rule conjI)
qed

text \<open>
  Without the two restrictions the claim fails. A value that contains a later placeholder
  is substituted again: \<open>{{1}}\<close> with \<open>{"1": "{{2}}", "2": "B"}\<close> renders as \<open>B\<close>, not as
  the value \<open>{{2}}\<close> of parameter 1. A value can also complete a placeholder with braces of
  the body: \<open>{{{{1}}}}\<close> with \<open>{"1": "2", "2": "B"}\<close> renders as \<open>B\<close>, not as \<open>{{2}}\<close>.
\<close>

theorem C4_counterexample:
  "body_text [Placeholder ''1''] = ''{{1}}''
   \<and> expected_content (Some [(''1'', ''{{2}}''), (''2'', ''B'')]) [Placeholder ''1''] = ''{{2}}''
   \<and> render_content ''{{1}}'' (Some [(''1'', ''{{2}}''), (''2'', ''B'')]) = ''B''
   \<and> body_text nested_body = ''{{{{1}}}}''
   \<and> expected_content (Some [(''1'', ''2''), (''2'', ''B'')]) nested_body = ''{{2}}''
   \<and> render_content ''{{{{1}}}}'' (Some [(''1'', ''2''), (''2'', ''B'')]) = ''B''"
  by code_simp

subsection \<open>Contact resolution\<close>







subsection \<open>The sending account cannot be loaded\<close>

text \<open>
  Claim C6. When the campaign is startable and the lookup of the sending account by
  (account name, organization) fails, the run returns the error to its caller, the campaign
  reads \<open>failed\<close> afterwards, and recipients, messages, contacts and gateway are untouched.
\<close>

theorem C6_account_lookup_failure:
  assumes "load_campaign env w cid = Some c"
    and "c_Status c = ''queued'' \<or> c_Status c = ''processing''"
    and "load_account env w c = None"
  shows "\<exists>w'. processCampaign env ienv w cid = (Failed LoadAccountError, w')
            \<and> handleCampaignJob env ienv w cid = (Error LoadAccountError, w')
            \<and> campaign_status w' cid = Some ''failed''
            \<and> recipients w' = recipients w \<and> messages w' = messages w
            \<and> contacts w' = contacts w \<and> gateway w' = gateway w"
proof -
  let ?w' = "update_campaign cid (\<lambda>c. c\<lparr>c_Status := ''failed''\<rparr>) w"
  note c = load_campaign_SomeD [OF assms(1)]
  have run: "processCampaign env ienv w cid = (Failed LoadAccountError, ?w')"
    using assms c(2) by (auto simp: processCampaign_def)
  have "db_first c_ID (\<lambda>c. c_ID c = cid) (campaigns w) \<noteq> None"
    using c by (auto simp: db_first_None_iff)
  then have "campaign_status ?w' cid = Some ''failed''"
    by (simp add: campaign_status_update) (simp add: campaign_status_def)
  with run show ?thesis by (simp add: handleCampaignJob_def)
qed

theorem C6_witness:
  "\<exists>w'. processCampaign demo_env demo_iter no_account_store ''c1'' = (Failed LoadAccountError, w')
        \<and> handleCampaignJob demo_env demo_iter no_account_store ''c1'' = (Error LoadAccountError, w')
        \<and> campaign_status w' ''c1'' = Some ''failed''
        \<and> recipients w' = recipients no_account_store \<and> messages w' = messages no_account_store
        \<and> contacts w' = contacts no_account_store \<and> gateway w' = gateway no_account_store"
proof -
  have a: "load_campaign demo_env no_account_store ''c1'' = Some demo_campaign"
    by code_simp
  have b: "c_Status demo_campaign = ''queued'' \<or> c_Status demo_campaign = ''processing''"
    by code_simp
  have c: "load_account demo_env no_account_store demo_campaign = None"
    by code_simp
  show ?thesis by (rule C6_account_lookup_failure [OF a b c])
qed

subsection \<open>A campaign that cannot be started\<close>

text \<open>
  Claim C7. A campaign that loads with a status other than \<open>queued\<close> or \<open>processing\<close>
  makes the run a no-op: nil is returned and the store is the one the run started with.
  When no campaign row has the id of the job, the run returns an error (and leaves the
  store as it was).
\<close>

theorem C7_unstartable_noop_missing_error:
  "(load_campaign env w cid = Some c \<and> c_Status c \<noteq> ''queued'' \<and> c_Status c \<noteq> ''processing''
      \<longrightarrow> processCampaign env ienv w cid = (Skipped, w)
          \<and> handleCampaignJob env ienv w cid = (Nil, w))
   \<and> ((\<forall>x \<in> set (campaigns w). c_ID x \<noteq> cid)
      \<longrightarrow> processCampaign env ienv w cid = (Failed LoadCampaignError, w)
          \<and> handleCampaignJob env ienv w cid = (Error LoadCampaignError, w))"
proof (intro conjI impI)
  assume h: "load_campaign env w cid = Some c \<and> c_Status c \<noteq> ''queued'' \<and> c_Status c \<noteq> ''processing''"
  then show "processCampaign env ienv w cid = (Skipped, w)"
    by (simp add: processCampaign_def)
  then show "handleCampaignJob env ienv w cid = (Nil, w)"
    by (simp add: handleCampaignJob_def)
next
  assume "\<forall>x \<in> set (campaigns w). c_ID x \<noteq> cid"
  then have "load_campaign env w cid = None"
    by (simp add: load_campaign_def db_first_None_iff)
  then show "processCampaign env ienv w cid = (Failed LoadCampaignError, w)"
    by (simp add: processCampaign_def)
  then show "handleCampaignJob env ienv w cid = (Error LoadCampaignError, w)"
    by (simp add: handleCampaignJob_def)
qed

theorem C7_witness:
  "handleCampaignJob demo_env demo_iter finished_store ''c1'' = (Nil, finished_store)
   \<and> handleCampaignJob demo_env demo_iter demo_store ''c9'' = (Error LoadCampaignError, demo_store)"
proof -
  have a: "load_campaign demo_env finished_store ''c1'' = Some (demo_campaign\<lparr>c_Status := ''completed''\<rparr>)
           \<and> c_Status (demo_campaign\<lparr>c_Status := ''completed''\<rparr>) \<noteq> ''queued''
           \<and> c_Status (demo_campaign\<lparr>c_Status := ''completed''\<rparr>) \<noteq> ''processing''"
    by code_simp
  have b: "\<forall>x \<in> set (campaigns demo_store). c_ID x \<noteq> ''c9''"
    by code_simp
  from C7_unstartable_noop_missing_error [of demo_env finished_store "''c1''" _ demo_iter] a
       C7_unstartable_noop_missing_error [of demo_env demo_store "''c9''" _ demo_iter] b
  show ?thesis by blast
qed

subsection \<open>The message record of a send\<close>

text \<open>
  Claim C8, amended. For a recipient whose contact resolves, in a campaign that carries its
  template, a message record is built whether the send succeeds or fails, with the campaign
  id and the recipient's display name as metadata; it is added to the messages when the
  store accepts the insert, and there is no record when the insert fails (the worker logs
  that and goes on). In both cases: on a send error the message is \<open>failed\<close> with the error
  text, the recipient's row is marked \<open>failed\<close> with that text and the failed counter is
  incremented; on success the message is \<open>sent\<close>, the recipient's row is marked \<open>sent\<close>
  with \<open>sent_at\<close> and the provider's message id, and the sent counter is incremented.
\<close>

theorem C8_message_record_per_send:
  assumes goc: "getOrCreateContact e w (c_OrganizationID c) (r_PhoneNumber r) (r_RecipientName r)
                  = (Some ct, w1)"
    and tmpl: "c_Template c = Some t"
  shows "\<exists>m s' f' w'.
           process_recipient e cid c a r s f w = (Some (s', f'), w')
         \<and> messages w' = (if message_create_error e then messages w else messages w @ [m])
         \<and> m_Metadata m = [(''campaign_id'', cid), (''recipient_name'', r_RecipientName r)]
         \<and> m_ContactID m = ct_ID ct \<and> m_TemplateName m = t_Name t
         \<and> m_Content m = render_content (t_BodyContent t) (r_TemplateParams r)
         \<and> m_WhatsAppMessageID m = send_message_id e
         \<and> (case send_error e of
               Some txt \<Rightarrow>
                 m_Status m = ''failed'' \<and> m_ErrorMessage m = txt \<and> s' = s \<and> f' = f + 1
                 \<and> recipients w' =
                     map (\<lambda>x. if r_ID x = r_ID r
                              then x\<lparr>r_Status := ''failed'', r_WhatsAppMessageID := send_message_id e,
                                     r_ErrorMessage := txt\<rparr>
                              else x) (recipients w)
             | None \<Rightarrow>
                 m_Status m = ''sent'' \<and> s' = s + 1 \<and> f' = f
                 \<and> recipients w' =
                     map (\<lambda>x. if r_ID x = r_ID r
                              then x\<lparr>r_Status := ''sent'', r_WhatsAppMessageID := send_message_id e,
                                     r_SentAt := Some (sent_time e)\<rparr>
                              else x) (recipients w))"
proof -
  let ?base = "build_message cid c r ct (send_message_id e)"
  let ?m = "(case send_error e of
               Some txt \<Rightarrow> ?base\<lparr>m_Status := ''failed'', m_ErrorMessage := txt\<rparr>
             | None \<Rightarrow> ?base\<lparr>m_Status := ''sent''\<rparr>)\<lparr>m_ID := new_message_id e\<rparr>"
  obtain w' where pr: "process_recipient e cid c a r s f w =
       (Some (case send_error e of Some txt \<Rightarrow> (s, f + 1) | None \<Rightarrow> (s + 1, f)), w')"
    and rs: "recipients w' = map (\<lambda>x. if r_ID x = r_ID r
                               then (case send_error e of
                                       Some txt \<Rightarrow> x\<lparr>r_Status := ''failed'', r_WhatsAppMessageID := send_message_id e, r_ErrorMessage := txt\<rparr>
                                     | None \<Rightarrow> x\<lparr>r_Status := ''sent'', r_WhatsAppMessageID := send_message_id e, r_SentAt := Some (sent_time e)\<rparr>)
                               else x) (recipients w)"
    and ms: "messages w' = (if message_create_error e then messages w else messages w @ [?m])"
    using process_recipient_send [OF goc tmpl, of cid a s f] by blast
  have m0: "m_Metadata ?base = [(''campaign_id'', cid), (''recipient_name'', r_RecipientName r)]"
    "m_ContactID ?base = ct_ID ct" "m_TemplateName ?base = t_Name t"
    "m_Content ?base = render_content (t_BodyContent t) (r_TemplateParams r)"
    "m_WhatsAppMessageID ?base = send_message_id e"
    by (simp_all add: build_message_def tmpl)
  show ?thesis
  proof (cases "send_error e")
    case None
    let ?n = "?base\<lparr>m_Status := ''sent'', m_ID := new_message_id e\<rparr>"
    have "process_recipient e cid c a r s f w = (Some (s + 1, f), w')"
      using pr None by simp
    moreover have "messages w' = (if message_create_error e then messages w else messages w @ [?n])"
      using ms None by simp
    moreover have "recipients w' =
                     map (\<lambda>x. if r_ID x = r_ID r
                              then x\<lparr>r_Status := ''sent'', r_WhatsAppMessageID := send_message_id e,
                                     r_SentAt := Some (sent_time e)\<rparr>
                              else x) (recipients w)"
      using rs None by simp
    ultimately show ?thesis
      using m0 None by (rule_tac x = ?n in exI, rule_tac x = "s + 1" in exI, rule_tac x = f in exI, rule_tac x = w' in exI) simp
  next
    case (Some errtext)
    let ?n = "?base\<lparr>m_Status := ''failed'', m_ErrorMessage := errtext, m_ID := new_message_id e\<rparr>"
    have "process_recipient e cid c a r s f w = (Some (s, f + 1), w')"
      using pr Some by simp
    moreover have "messages w' = (if message_create_error e then messages w else messages w @ [?n])"
      using ms Some by simp
    moreover have "recipients w' =
                     map (\<lambda>x. if r_ID x = r_ID r
                              then x\<lparr>r_Status := ''failed'', r_WhatsAppMessageID := send_message_id e,
                                     r_ErrorMessage := errtext\<rparr>
                              else x) (recipients w)"
      using rs Some by simp
    ultimately show ?thesis
      using m0 Some by (rule_tac x = ?n in exI, rule_tac x = s in exI, rule_tac x = "f + 1" in exI, rule_tac x = w' in exI) simp
  qed
qed

theorem C8_witness:
  "(\<exists>m s' f' w'.
      process_recipient (demo_iter 0) ''c1'' demo_campaign demo_account
        (demo_recipient ''r1'' ''+15550001'') 0 0 demo_store = (Some (s', f'), w')
      \<and> m_Status m = ''sent'' \<and> s' = 1 \<and> f' = 0
      \<and> m_Content m = ''Hi Ana, your order #42 shipped''
      \<and> messages w' = [m])
   \<and> (\<exists>m s' f' w'.
      process_recipient (gateway_down_iter 0) ''c1'' demo_campaign demo_account
        (demo_recipient ''r1'' ''+15550001'') 0 0 demo_store = (Some (s', f'), w')
      \<and> m_Status m = ''failed'' \<and> m_ErrorMessage m = ''rate limited'' \<and> s' = 0 \<and> f' = 1
      \<and> messages w' = [m])"
proof -
  let ?r = "demo_recipient ''r1'' ''+15550001''"
  let ?ct = "\<lparr>ct_ID = ''ct0'', ct_OrganizationID = ''org1'', ct_PhoneNumber = ''15550001'',
              ct_ProfileName = ''Ana''\<rparr>"
  have t: "c_Template demo_campaign = Some demo_template" by code_simp
  have body: "render_content (t_BodyContent demo_template) (r_TemplateParams ?r)
                = ''Hi Ana, your order #42 shipped''"
    by code_simp
  have a: "getOrCreateContact (demo_iter 0) demo_store (c_OrganizationID demo_campaign)
             (r_PhoneNumber ?r) (r_RecipientName ?r)
           = (Some ?ct, demo_store\<lparr>contacts := [?ct]\<rparr>)"
    by code_simp
  have b: "getOrCreateContact (gateway_down_iter 0) demo_store (c_OrganizationID demo_campaign)
             (r_PhoneNumber ?r) (r_RecipientName ?r)
           = (Some ?ct, demo_store\<lparr>contacts := [?ct]\<rparr>)"
    by code_simp
  have ok: "send_error (demo_iter 0) = None" "\<not> message_create_error (demo_iter 0)"
    by code_simp+
  have ko: "send_error (gateway_down_iter 0) = Some ''rate limited''"
    "\<not> message_create_error (gateway_down_iter 0)"
    by code_simp+
  have ms: "messages demo_store = []" by code_simp
  from C8_message_record_per_send [OF a t, of "''c1''" demo_account 0 0]
  have "\<exists>m s' f' w'.
      process_recipient (demo_iter 0) ''c1'' demo_campaign demo_account ?r 0 0 demo_store = (Some (s', f'), w')
      \<and> m_Status m = ''sent'' \<and> s' = 1 \<and> f' = 0
      \<and> m_Content m = ''Hi Ana, your order #42 shipped''
      \<and> messages w' = [m]"
    using ok body ms by auto
  moreover
  from C8_message_record_per_send [OF b t, of "''c1''" demo_account 0 0]
  have "\<exists>m s' f' w'.
      process_recipient (gateway_down_iter 0) ''c1'' demo_campaign demo_account ?r 0 0 demo_store = (Some (s', f'), w')
      \<and> m_Status m = ''failed'' \<and> m_ErrorMessage m = ''rate limited'' \<and> s' = 0 \<and> f' = 1
      \<and> messages w' = [m]"
    using ko ms by auto
  ultimately show ?thesis by simp
qed

text \<open>
  The claim as stated (a record is created for every recipient whose contact resolves)
  fails when the store refuses the insert: the contact resolves, the send succeeds, the
  recipient is marked \<open>sent\<close> and counted, and there is no message record.
\<close>

theorem C8_counterexample:
  "fst (getOrCreateContact (insert_down_iter 0) demo_store (c_OrganizationID demo_campaign)
          (r_PhoneNumber (demo_recipient ''r1'' ''+15550001''))
          (r_RecipientName (demo_recipient ''r1'' ''+15550001''))) = Some contact_ana
   \<and> send_error (insert_down_iter 0) = None
   \<and> fst (process_recipient (insert_down_iter 0) ''c1'' demo_campaign demo_account
            (demo_recipient ''r1'' ''+15550001'') 0 0 demo_store) = Some (1, 0)
   \<and> messages (snd (process_recipient (insert_down_iter 0) ''c1'' demo_campaign demo_account
            (demo_recipient ''r1'' ''+15550001'') 0 0 demo_store)) = []
   \<and> map r_Status (recipients (snd (process_recipient (insert_down_iter 0) ''c1'' demo_campaign
            demo_account (demo_recipient ''r1'' ''+15550001'') 0 0 demo_store)))
       = [''sent'', ''pending'', ''pending'']"
  by code_simp

subsection \<open>A contact that cannot be resolved\<close>

text \<open>
  Claim C9. When the contact of a recipient cannot be resolved, the recipient's row is
  marked \<open>failed\<close> with the error message \<open>Failed to create contact\<close>, the failed counter
  is incremented (the sent counter is not), no message record, contact or gateway call is
  added, and the run goes on: when the recipient is the last one the loop ends exhausted,
  not aborted; otherwise the loop is the loop over the remaining recipients, and when the
  next iteration is not stopped the next recipient is processed with the counters of this
  one.
\<close>

theorem C9_contact_failure_marks_and_continues:
  assumes goc: "getOrCreateContact (ienv k) (management_write (ienv k) cid w) (c_OrganizationID c)
                  (r_PhoneNumber r) (r_RecipientName r) = (None, w1)"
    and ctx: "\<not> ctx_done (ienv k)"
    and active: "current_status (ienv k) cid (management_write (ienv k) cid w) \<noteq> ''paused''"
                "current_status (ienv k) cid (management_write (ienv k) cid w) \<noteq> ''cancelled''"
  shows "\<exists>w'. process_recipient (ienv k) cid c a r s f (management_write (ienv k) cid w)
                = (Some (s, f + 1), w')
            \<and> recipients w' =
                map (\<lambda>x. if r_ID x = r_ID r
                         then x\<lparr>r_Status := ''failed'', r_ErrorMessage := ''Failed to create contact''\<rparr>
                         else x) (recipients w)
            \<and> messages w' = messages w \<and> contacts w' = contacts w \<and> gateway w' = gateway w
            \<and> recipient_loop ienv k cid c a [r] s f w = (Exhausted s (f + 1), w')
            \<and> recipient_loop ienv k cid c a (r # rest) s f w
                = recipient_loop ienv (k + 1) cid c a rest s (f + 1) w'
            \<and> (\<not> ctx_done (ienv (k + 1))
                \<and> current_status (ienv (k + 1)) cid (management_write (ienv (k + 1)) cid w') \<noteq> ''paused''
                \<and> current_status (ienv (k + 1)) cid (management_write (ienv (k + 1)) cid w') \<noteq> ''cancelled''
               \<longrightarrow> recipient_loop ienv k cid c a (r # next # later) s f w =
                     (case process_recipient (ienv (k + 1)) cid c a next s (f + 1)
                             (management_write (ienv (k + 1)) cid w') of
                        (None, w2) \<Rightarrow> (NilTemplatePanic, w2)
                      | (Some (s', f'), w2) \<Rightarrow>
                          recipient_loop ienv (k + 1 + 1) cid c a later s' f' w2))"
proof -
  let ?w0 = "management_write (ienv k) cid w"
  let ?w' = "update_recipient (r_ID r)
              (\<lambda>r. r\<lparr>r_Status := ''failed'', r_ErrorMessage := ''Failed to create contact''\<rparr>) ?w0"
  have pr: "process_recipient (ienv k) cid c a r s f ?w0 = (Some (s, f + 1), ?w')"
    by (rule process_recipient_no_contact [OF goc])
  note step = recipient_loop_last [where ienv = ienv and k = k, OF ctx active pr]
  have nxt: "\<not> ctx_done (ienv (k + 1))
                \<and> current_status (ienv (k + 1)) cid (management_write (ienv (k + 1)) cid ?w') \<noteq> ''paused''
                \<and> current_status (ienv (k + 1)) cid (management_write (ienv (k + 1)) cid ?w') \<noteq> ''cancelled''
               \<longrightarrow> recipient_loop ienv k cid c a (r # next # later) s f w =
                     (case process_recipient (ienv (k + 1)) cid c a next s (f + 1)
                             (management_write (ienv (k + 1)) cid ?w') of
                        (None, w2) \<Rightarrow> (NilTemplatePanic, w2)
                      | (Some (s', f'), w2) \<Rightarrow>
                          recipient_loop ienv (k + 1 + 1) cid c a later s' f' w2)"
    unfolding step(1) [of "next # later"]
    by (simp add: Let_def cong: prod.case_cong option.case_cong)
  show ?thesis
    using pr step(2) step(1) [of rest] nxt
    by (intro exI [of _ ?w']) simp
qed

theorem C9_witness:
  "(\<exists>w'. recipient_loop contact_down_iter 0 ''c1'' demo_campaign demo_account
            [demo_recipient ''r1'' ''+15550001''] 0 0 demo_store = (Exhausted 0 (0 + 1), w')
         \<and> recipients w' =
             map (\<lambda>x. if r_ID x = r_ID (demo_recipient ''r1'' ''+15550001'')
                      then x\<lparr>r_Status := ''failed'', r_ErrorMessage := ''Failed to create contact''\<rparr>
                      else x) (recipients demo_store)
         \<and> messages w' = messages demo_store)
   \<and> fst (recipient_loop contact_down_iter 0 ''c1'' demo_campaign demo_account
        [demo_recipient ''r1'' ''+15550001'', demo_recipient ''r2'' ''15550002''] 0 0 demo_store)
       = Exhausted 0 2
   \<and> map r_Status (recipients (snd (recipient_loop contact_down_iter 0 ''c1'' demo_campaign
        demo_account [demo_recipient ''r1'' ''+15550001'', demo_recipient ''r2'' ''15550002'']
        0 0 demo_store))) = [''failed'', ''failed'', ''pending'']
   \<and> fst (processCampaign demo_env contact_down_iter demo_store ''c1'') = Completed
   \<and> map r_Status (recipients (snd (processCampaign demo_env contact_down_iter demo_store ''c1'')))
       = [''failed'', ''failed'', ''failed'']
   \<and> map c_FailedCount (campaigns (snd (processCampaign demo_env contact_down_iter demo_store ''c1'')))
       = [3]
   \<and> messages (snd (processCampaign demo_env contact_down_iter demo_store ''c1'')) = []"
proof -
  have a: "getOrCreateContact (contact_down_iter 0) (management_write (contact_down_iter 0) ''c1'' demo_store)
             (c_OrganizationID demo_campaign) (r_PhoneNumber (demo_recipient ''r1'' ''+15550001''))
             (r_RecipientName (demo_recipient ''r1'' ''+15550001''))
           = (None, management_write (contact_down_iter 0) ''c1'' demo_store)"
    by code_simp
  have b: "\<not> ctx_done (contact_down_iter 0)"
    by code_simp
  have c: "current_status (contact_down_iter 0) ''c1''
             (management_write (contact_down_iter 0) ''c1'' demo_store) \<noteq> ''paused''"
    by code_simp
  have d: "current_status (contact_down_iter 0) ''c1''
             (management_write (contact_down_iter 0) ''c1'' demo_store) \<noteq> ''cancelled''"
    by code_simp
  have one: "\<exists>w'. recipient_loop contact_down_iter 0 ''c1'' demo_campaign demo_account
            [demo_recipient ''r1'' ''+15550001''] 0 0 demo_store = (Exhausted 0 (0 + 1), w')
         \<and> recipients w' =
             map (\<lambda>x. if r_ID x = r_ID (demo_recipient ''r1'' ''+15550001'')
                      then x\<lparr>r_Status := ''failed'', r_ErrorMessage := ''Failed to create contact''\<rparr>
                      else x) (recipients demo_store)
         \<and> messages w' = messages demo_store"
  proof -
    from C9_contact_failure_marks_and_continues
          [where ienv = contact_down_iter and k = 0 and cid = "''c1''" and w = demo_store
             and a = demo_account and s = 0 and f = 0 and rest = "[]"
             and ?next = "demo_recipient ''r2'' ''15550002''" and later = "[]", OF a b c d]
    obtain w' where
      "recipient_loop contact_down_iter 0 ''c1'' demo_campaign demo_account
            [demo_recipient ''r1'' ''+15550001''] 0 0 demo_store = (Exhausted 0 (0 + 1), w')"
      "recipients w' =
             map (\<lambda>x. if r_ID x = r_ID (demo_recipient ''r1'' ''+15550001'')
                      then x\<lparr>r_Status := ''failed'', r_ErrorMessage := ''Failed to create contact''\<rparr>
                      else x) (recipients demo_store)"
      "messages w' = messages demo_store"
      by (elim exE conjE) (rule that)
    then show ?thesis by (intro exI [of _ w'] conjI)
  qed
  have run: "fst (recipient_loop contact_down_iter 0 ''c1'' demo_campaign demo_account
        [demo_recipient ''r1'' ''+15550001'', demo_recipient ''r2'' ''15550002''] 0 0 demo_store)
       = Exhausted 0 2
   \<and> map r_Status (recipients (snd (recipient_loop contact_down_iter 0 ''c1'' demo_campaign
        demo_account [demo_recipient ''r1'' ''+15550001'', demo_recipient ''r2'' ''15550002'']
        0 0 demo_store))) = [''failed'', ''failed'', ''pending'']
   \<and> fst (processCampaign demo_env contact_down_iter demo_store ''c1'') = Completed
   \<and> map r_Status (recipients (snd (processCampaign demo_env contact_down_iter demo_store ''c1'')))
       = [''failed'', ''failed'', ''failed'']
   \<and> map c_FailedCount (campaigns (snd (processCampaign demo_env contact_down_iter demo_store ''c1'')))
       = [3]
   \<and> messages (snd (processCampaign demo_env contact_down_iter demo_store ''c1'')) = []"
    by code_simp
  from one run show ?thesis by (rule conjI)
qed

subsection \<open>A status that cannot be read\<close>



end
